theory Spec2Isabelle
  imports Main
begin

section \<open>Values and objects\<close>

text \<open>
  The grid of \<^verbatim>\<open>src/components/table/Table.tsx\<close> is generic in its row type and takes
  its query parameters as \<^verbatim>\<open>any\<close>. Rows and parameter objects are modelled as flat
  objects: an ordered list of own properties whose values are primitives. On primitives
  the strict equality \<^verbatim>\<open>===\<close> of the source is equality of values (numbers are
  integers here, so there is no NaN), and reading a property that is absent gives
  \<open>JUndefined\<close>. The order of the list is the order in which the properties were
  created (names that are array indices, which JavaScript puts first, are not used).
\<close>

datatype jsval = JUndefined | JNull | JBool bool | JNum int | JStr string

type_synonym obj = "(string \<times> jsval) list"

definition keys :: "obj \<Rightarrow> string set" where
  "keys ob = fst ` set ob"

definition get_prop :: "obj \<Rightarrow> string \<Rightarrow> jsval" where
  "get_prop ob k = (case map_of ob k of None \<Rightarrow> JUndefined | Some v \<Rightarrow> v)"

text \<open>Assignment \<^verbatim>\<open>ob[k] = v\<close>: an own property keeps its place, a new one goes last.\<close>

fun set_prop :: "string \<Rightarrow> jsval \<Rightarrow> obj \<Rightarrow> obj" where
  "set_prop k v [] = [(k, v)]"
| "set_prop k v ((k', v') # ps) =
     (if k' = k then (k, v) # ps else (k', v') # set_prop k v ps)"

text \<open>
  One spread element of an object literal, \<^verbatim>\<open>{...tgt, ...src}\<close>: the properties of
  \<open>src\<close> are assigned onto what the literal holds so far, in their order.
\<close>

fun spread :: "obj \<Rightarrow> obj \<Rightarrow> obj" where
  "spread tgt [] = tgt"
| "spread tgt ((k, v) # ps) = spread (set_prop k v tgt) ps"

text \<open>Spreading \<^verbatim>\<open>undefined\<close> adds nothing.\<close>

definition spread_opt :: "obj \<Rightarrow> obj option \<Rightarrow> obj" where
  "spread_opt tgt src = (case src of None \<Rightarrow> tgt | Some ob \<Rightarrow> spread tgt ob)"

section \<open>Promises\<close>

text \<open>
  A promise handed back by the caller either resolves with a value, and then the
  \<^verbatim>\<open>then\<close> callback (or the code after \<^verbatim>\<open>await\<close>) runs, or it is rejected or
  stays pending, and then that code never runs: the source has no rejection handler.
  Every operation below is followed through the resolution of the promises it waits for.
\<close>

datatype 'a outcome = Resolves 'a | Unsettled

section \<open>The grid: props, state and instance fields\<close>

record TableSorter =
  name :: string
  order :: string

text \<open>The argument object of \<^verbatim>\<open>loadData({ page, pageSize, param, sorter })\<close>.\<close>

record load_args =
  page :: int
  pageSize :: int
  param :: obj
  sorter :: "TableSorter option"

text \<open>The argument object of \<^verbatim>\<open>requestLoadData\<close>: the same fields, \<open>param\<close> optional.\<close>

record request_args =
  page :: int
  pageSize :: int
  param :: "obj option"
  sorter :: "TableSorter option"

datatype save_kind = DELETE | UPDATE | CREATE

text \<open>
  What \<^verbatim>\<open>form.validateFields\<close> hands to its callback: an error, or the values of the
  fields.
\<close>

datatype validation = Invalid | Valid obj

text \<open>\<^verbatim>\<open>TableEventListeners\<close>: the handlers of a row by event name; \<open>[]\<close> is \<^verbatim>\<open>{}\<close>.\<close>

type_synonym listeners = "(string \<times> nat) list"

text \<open>
  The props the operations read. The \<^verbatim>\<open>event\<close> object is there, each of its handlers may
  be absent. The loader and the save hook are the caller's; they are taken at their
  declared types, as functions that return a promise, and a promise is represented by
  the way it settles. \<open>form\<close> is the form utility as far as the grid uses it: the
  outcome of validating the fields of the row in edit mode.
\<close>

record Props =
  loadData :: "load_args \<Rightarrow> (obj list \<times> int) outcome"
  defaultPageSize :: int
  defaultParam :: obj
  rowKey :: string
  onRow :: "(obj \<Rightarrow> int \<Rightarrow> listeners) option"
  onSave :: "(obj \<Rightarrow> save_kind \<Rightarrow> bool option outcome) option"
  form :: "validation option"

record DataSourceState =
  update :: "obj list"
  delete :: "obj list"
  create :: "obj list"

record State =
  dataSource :: "obj list"
  total :: int
  loading :: bool
  page :: int
  pageSize :: int
  sorter :: "TableSorter option"
  editingKey :: jsval

text \<open>A call of one of the caller's functions, with its arguments.\<close>

datatype call = LoadData load_args | OnSave obj save_kind

text \<open>
  Modelled from the spec: the editable cell (\<^verbatim>\<open>./EditableCell\<close>) is not among the
  sources. The spec describes the \<^verbatim>\<open>onSave('hide')\<close> of a cell in the registry of active
  editors as the transition of the cell to its hidden, non-edit visual state, which is
  awaited. A registered cell is represented by the outcome of that promise, and the
  transition changes nothing of the grid.
\<close>

type_synonym cell = "unit outcome"

text \<open>
  The component instance: its React state and its private fields. \<open>calls\<close> is not a
  field of the source: it records, in order, the calls the instance has made to
  \<^verbatim>\<open>props.loadData\<close> and \<^verbatim>\<open>event.onSave\<close>, so that what is passed to them can be
  stated.
\<close>

record Table =
  state :: State
  REQUEST_PARAM :: obj
  dataSourceState :: DataSourceState
  currentEditorCell :: "cell list"
  calls :: "call list"

definition setState :: "(State \<Rightarrow> State) \<Rightarrow> Table \<Rightarrow> Table" where
  "setState f t = t\<lparr>state := f (state t)\<rparr>"

definition initial :: Table where
  "initial =
     \<lparr>state = \<lparr>dataSource = [], total = 0, loading = True, page = 1, pageSize = 0,
        sorter = None, editingKey = JUndefined\<rparr>,
      REQUEST_PARAM = [],
      dataSourceState = \<lparr>update = [], delete = [], create = []\<rparr>,
      currentEditorCell = [],
      calls = []\<rparr>"

section \<open>Loading\<close>

text \<open>
  \<^verbatim>\<open>editStash\<close>: every registered cell is asked to hide; when all of these promises
  have resolved the three collections are emptied.
\<close>

definition editStash :: "Table \<Rightarrow> Table" where
  "editStash t =
     (if list_all (\<lambda>c. c = Resolves ()) (currentEditorCell t)
      then t\<lparr>dataSourceState := \<lparr>update = [], delete = [], create = []\<rparr>\<rparr>
      else t)"

definition editStatus :: "Table \<Rightarrow> bool" where
  "editStatus t =
     (if length (create (dataSourceState t)) > 0 then True
      else if length (update (dataSourceState t)) > 0 then True
      else if length (delete (dataSourceState t)) > 0 then True
      else False)"

text \<open>The object literal \<^verbatim>\<open>{...param, ...defaultParam, ...this.REQUEST_PARAM}\<close>.\<close>

definition merged_param :: "Props \<Rightarrow> obj option \<Rightarrow> Table \<Rightarrow> obj" where
  "merged_param P par t =
     spread (spread (spread_opt [] par) (defaultParam P)) (REQUEST_PARAM t)"

definition loadData_args :: "Props \<Rightarrow> request_args \<Rightarrow> Table \<Rightarrow> load_args" where
  "loadData_args P a t =
     \<lparr>load_args.page = request_args.page a,
      load_args.pageSize = request_args.pageSize a,
      load_args.param = merged_param P (request_args.param a) t,
      load_args.sorter = request_args.sorter a\<rparr>"

text \<open>\<^verbatim>\<open>requestLoadData\<close> up to the call of the loader.\<close>

definition requestLoadData_issue :: "Props \<Rightarrow> request_args \<Rightarrow> Table \<Rightarrow> Table" where
  "requestLoadData_issue P a t =
     (setState (\<lambda>s. s\<lparr>loading := True\<rparr>) t)
       \<lparr>calls := calls t @ [LoadData (loadData_args P a t)]\<rparr>"

text \<open>The \<^verbatim>\<open>then\<close> callback of the loader's promise.\<close>

definition requestLoadData_then :: "obj list \<times> int \<Rightarrow> Table \<Rightarrow> Table" where
  "requestLoadData_then r t =
     editStash
       (setState (\<lambda>s. s\<lparr>dataSource := fst r, total := snd r, loading := False\<rparr>) t)"

definition requestLoadData :: "Props \<Rightarrow> request_args \<Rightarrow> Table \<Rightarrow> Table" where
  "requestLoadData P a t =
     (let t1 = requestLoadData_issue P a t
      in case loadData P (loadData_args P a t) of
           Resolves r \<Rightarrow> requestLoadData_then r t1
         | Unsettled \<Rightarrow> t1)"

definition componentDidMount :: "Props \<Rightarrow> Table \<Rightarrow> Table" where
  "componentDidMount P t =
     requestLoadData P
       \<lparr>request_args.page = 1, request_args.pageSize = defaultPageSize P,
        request_args.param = None, request_args.sorter = None\<rparr> t"

text \<open>
  \<^verbatim>\<open>reload(param?)\<close>. An object is truthy, the empty one too; \<open>None\<close> is the call
  without an argument (or with \<^verbatim>\<open>null\<close>, which is falsy and spreads to nothing).
  \<^verbatim>\<open>a || b\<close> on numbers takes \<open>b\<close> when \<open>a\<close> is \<open>0\<close>.
\<close>

definition reload_args :: "Props \<Rightarrow> obj option \<Rightarrow> Table \<Rightarrow> request_args" where
  "reload_args P par t =
     \<lparr>request_args.page = State.page (state t),
      request_args.pageSize =
        (if State.pageSize (state t) \<noteq> 0 then State.pageSize (state t)
         else defaultPageSize P),
      request_args.param = par,
      request_args.sorter = State.sorter (state t)\<rparr>"

definition reload :: "Props \<Rightarrow> obj option \<Rightarrow> Table \<Rightarrow> Table" where
  "reload P par t =
     (let t1 = (case par of None \<Rightarrow> t | Some p \<Rightarrow> t\<lparr>REQUEST_PARAM := p\<rparr>)
      in requestLoadData P (reload_args P par t1) t1)"

text \<open>
  The \<^verbatim>\<open>onChange\<close> handler given to the toolkit's table: a change of page, page size or
  sort order requests the page, with no ad-hoc parameter.
\<close>

definition onChange :: "Props \<Rightarrow> int \<Rightarrow> int \<Rightarrow> TableSorter \<Rightarrow> Table \<Rightarrow> Table" where
  "onChange P current psize srt t =
     requestLoadData P
       \<lparr>request_args.page = current, request_args.pageSize = psize,
        request_args.param = None, request_args.sorter = Some srt\<rparr> t"

section \<open>The operating columns\<close>

text \<open>
  The icons a render function of an operating column returns for a row; each carries
  the click handler the source attaches to it. The dividers between icons are left out.
  \<^verbatim>\<open>onBeforeRenderPromiseColumn\<close> receives the rendered node and may wrap or drop it; it
  is taken at its default, which returns the node as it is.
\<close>

datatype control = EditIcon | DeleteIcon | CheckIcon | UndoIcon

definition isEditing :: "Props \<Rightarrow> obj \<Rightarrow> Table \<Rightarrow> bool" where
  "isEditing P record t = (get_prop record (rowKey P) = editingKey (state t))"

definition getColumnOperatingRender ::
  "Props \<Rightarrow> control list \<Rightarrow> obj \<Rightarrow> Table \<Rightarrow> control list" where
  "getColumnOperatingRender P editor record t =
     (if isEditing P record t then [CheckIcon, UndoIcon]
      else if editingKey (state t) = JUndefined then editor
      else [])"

definition getColumnOperatingEdit :: "Props \<Rightarrow> obj \<Rightarrow> Table \<Rightarrow> control list" where
  "getColumnOperatingEdit P record t = getColumnOperatingRender P [EditIcon] record t"

definition getColumnOperatingDel :: "Props \<Rightarrow> obj \<Rightarrow> Table \<Rightarrow> control list" where
  "getColumnOperatingDel P record t = [DeleteIcon]"

definition getColumnOperating :: "Props \<Rightarrow> obj \<Rightarrow> Table \<Rightarrow> control list" where
  "getColumnOperating P record t =
     getColumnOperatingRender P [EditIcon, DeleteIcon] record t"

text \<open>
  The dispatch of \<^verbatim>\<open>getColumns\<close> on the column's \<^verbatim>\<open>dataIndex\<close>, for the controls of a
  row: the state column, the index column and the data columns render none.
\<close>

definition column_controls :: "Props \<Rightarrow> string \<Rightarrow> obj \<Rightarrow> Table \<Rightarrow> control list" where
  "column_controls P dataIndex record t =
     (if dataIndex = ''$operating'' then getColumnOperating P record t
      else if dataIndex = ''$operating#edit'' then getColumnOperatingEdit P record t
      else if dataIndex = ''$operating#del'' then getColumnOperatingDel P record t
      else [])"

text \<open>The click handler of the edit icon.\<close>

definition edit_onClick :: "Props \<Rightarrow> obj \<Rightarrow> Table \<Rightarrow> Table" where
  "edit_onClick P record t =
     setState (\<lambda>s. s\<lparr>editingKey := get_prop record (rowKey P)\<rparr>) t"

text \<open>The click handler of the undo icon.\<close>

definition undo_onClick :: "Table \<Rightarrow> Table" where
  "undo_onClick t = setState (\<lambda>s. s\<lparr>editingKey := JUndefined\<rparr>) t"

text \<open>
  The loop of the check icon's handler over the validated form values:
  \<^verbatim>\<open>newRecord[key.split(';')[0]] = values[key]\<close>.
\<close>

fun assign_values :: "obj \<Rightarrow> obj \<Rightarrow> obj" where
  "assign_values newRecord [] = newRecord"
| "assign_values newRecord ((k, v) # vs) =
     assign_values (set_prop (takeWhile (\<lambda>c. c \<noteq> CHR '';'') k) v newRecord) vs"

text \<open>
  The click handler of the check icon (row confirm). Nothing happens without a save
  hook, without a form, or when validation reports an error.
\<close>

definition check_onClick :: "Props \<Rightarrow> obj \<Rightarrow> Table \<Rightarrow> Table" where
  "check_onClick P record t =
     (case onSave P of
        None \<Rightarrow> t
      | Some hook \<Rightarrow>
          (case form P of
             None \<Rightarrow> t
           | Some Invalid \<Rightarrow> t
           | Some (Valid values) \<Rightarrow>
               (let newRecord = spread [] (assign_values (spread [] record) values);
                    t1 = t\<lparr>calls := calls t @ [OnSave newRecord UPDATE]\<rparr>
                in case hook newRecord UPDATE of
                     Resolves respState \<Rightarrow>
                       (if respState \<noteq> Some False
                        then setState (\<lambda>s. s\<lparr>editingKey := JUndefined\<rparr>) t1
                        else t1)
                   | Unsettled \<Rightarrow> t1)))"

text \<open>The click handler of the delete icon, the same in both columns that show it.\<close>

definition delete_onClick :: "Props \<Rightarrow> obj \<Rightarrow> Table \<Rightarrow> Table" where
  "delete_onClick P record t =
     (case onSave P of
        None \<Rightarrow> t
      | Some hook \<Rightarrow>
          (let t1 = t\<lparr>calls := calls t @ [OnSave record DELETE]\<rparr>
           in case hook record DELETE of
                Resolves respState \<Rightarrow>
                  (if respState \<noteq> Some False then reload P None t1 else t1)
              | Unsettled \<Rightarrow> t1))"

text \<open>
  The \<^verbatim>\<open>onRow\<close> given to the toolkit's table. \<^verbatim>\<open>editingKey == undefined\<close> is the loose
  comparison: it holds of \<^verbatim>\<open>undefined\<close> and of \<^verbatim>\<open>null\<close>.
\<close>

definition onRow_listeners :: "Props \<Rightarrow> obj \<Rightarrow> int \<Rightarrow> Table \<Rightarrow> listeners" where
  "onRow_listeners P record index t =
     (if editingKey (state t) = JUndefined \<or> editingKey (state t) = JNull
      then (case onRow P of None \<Rightarrow> [] | Some handler \<Rightarrow> handler record index)
      else [])"

section \<open>The per-cell save callback\<close>

text \<open>
  \<^verbatim>\<open>JSON.stringify\<close> on a flat object: the properties in their order, those whose value
  is \<^verbatim>\<open>undefined\<close> left out. Characters are those of the ASCII range.
\<close>

definition hex_digit :: "nat \<Rightarrow> char" where
  "hex_digit n = ''0123456789abcdef'' ! (n mod 16)"

definition escape_char :: "char \<Rightarrow> string" where
  "escape_char c =
     (if c = CHR 0x22 then [CHR 0x5C, CHR 0x22]
      else if c = CHR 0x5C then [CHR 0x5C, CHR 0x5C]
      else if c = CHR 0x08 then [CHR 0x5C, CHR ''b'']
      else if c = CHR 0x0C then [CHR 0x5C, CHR ''f'']
      else if c = CHR 0x0A then [CHR 0x5C, CHR ''n'']
      else if c = CHR 0x0D then [CHR 0x5C, CHR ''r'']
      else if c = CHR 0x09 then [CHR 0x5C, CHR ''t'']
      else if of_char c < (32 :: nat)
        then [CHR 0x5C, CHR ''u'', CHR ''0'', CHR ''0'',
              hex_digit (of_char c div 16), hex_digit (of_char c)]
      else [c])"

definition quote :: "string \<Rightarrow> string" where
  "quote s = [CHR 0x22] @ concat (map escape_char s) @ [CHR 0x22]"

fun show_nat :: "nat \<Rightarrow> string" where
  "show_nat n =
     (if n < 10 then [hex_digit n] else show_nat (n div 10) @ [hex_digit (n mod 10)])"

definition show_int :: "int \<Rightarrow> string" where
  "show_int i = (if i < 0 then CHR ''-'' # show_nat (nat (- i)) else show_nat (nat i))"

fun stringify_value :: "jsval \<Rightarrow> string option" where
  "stringify_value JUndefined = None"
| "stringify_value JNull = Some ''null''"
| "stringify_value (JBool b) = Some (if b then ''true'' else ''false'')"
| "stringify_value (JNum i) = Some (show_int i)"
| "stringify_value (JStr s) = Some (quote s)"

fun stringify_props :: "obj \<Rightarrow> string list" where
  "stringify_props [] = []"
| "stringify_props ((k, v) # ps) =
     (case stringify_value v of
        None \<Rightarrow> stringify_props ps
      | Some s \<Rightarrow> (quote k @ '':'' @ s) # stringify_props ps)"

fun join_commas :: "string list \<Rightarrow> string" where
  "join_commas [] = []"
| "join_commas [s] = s"
| "join_commas (s # ss) = s @ '','' @ join_commas ss"

definition JSON_stringify :: "obj \<Rightarrow> string" where
  "JSON_stringify ob = ''{'' @ join_commas (stringify_props ob) @ ''}''"

text \<open>
  The copy \<^verbatim>\<open>newData\<close> of the captured data source, each row with the key of \<open>values\<close>
  replaced by a copy of \<open>values\<close>.
\<close>

definition replace_rows :: "string \<Rightarrow> obj \<Rightarrow> obj list \<Rightarrow> obj list" where
  "replace_rows rk values ds =
     map (\<lambda>data. if get_prop data rk = get_prop values rk then spread [] values else data) ds"

text \<open>
  The \<^verbatim>\<open>for\<close> loop over \<^verbatim>\<open>update\<close>: at the first entry with the key of \<open>values\<close> the
  entry is replaced by a copy of \<open>values\<close> when the two serialise differently, and the
  loop ends.
\<close>

fun replace_update :: "string \<Rightarrow> obj \<Rightarrow> obj list \<Rightarrow> obj list" where
  "replace_update rk values [] = []"
| "replace_update rk values (element # rest) =
     (if get_prop element rk = get_prop values rk
      then (if JSON_stringify element \<noteq> JSON_stringify values
            then spread [] values # rest else element # rest)
      else element # replace_update rk values rest)"

definition stage_update :: "string \<Rightarrow> obj \<Rightarrow> obj list \<Rightarrow> obj list" where
  "stage_update rk values upd =
     (if length (filter (\<lambda>data. get_prop data rk = get_prop values rk) upd) > 0
      then replace_update rk values upd
      else upd @ [values])"

text \<open>
  The \<^verbatim>\<open>onSave\<close> that \<^verbatim>\<open>onCell\<close> hands to a cell. \<open>ds\<close> is the \<^verbatim>\<open>dataSource\<close> of the
  render that built the callback, which the closure captured. The result is the instance
  afterwards and the promise the callback returns.
\<close>

definition cell_onSave ::
  "Props \<Rightarrow> obj list \<Rightarrow> obj \<Rightarrow> Table \<Rightarrow> Table \<times> bool outcome" where
  "cell_onSave P ds values t =
     (let newData = replace_rows (rowKey P) values ds;
          t1 = t\<lparr>dataSourceState := (dataSourceState t)
                 \<lparr>update := stage_update (rowKey P) values (update (dataSourceState t))\<rparr>\<rparr>;
          t2 = setState (\<lambda>s. s\<lparr>dataSource := newData\<rparr>) t1
      in case onSave P of
           None \<Rightarrow> (t2, Resolves True)
         | Some hook \<Rightarrow>
             (let t3 = t2\<lparr>calls := calls t2 @ [OnSave values UPDATE]\<rparr>
              in case hook values UPDATE of
                   Resolves None \<Rightarrow> (t3, Resolves True)
                 | Resolves (Some respState) \<Rightarrow> (t3, Resolves respState)
                 | Unsettled \<Rightarrow> (t3, Unsettled)))"

section \<open>The index column\<close>

text \<open>The render function \<^verbatim>\<open>getColumnIndex\<close> installs: \<^verbatim>\<open>index + 1\<close>.\<close>

definition getColumnIndex :: "jsval \<Rightarrow> obj \<Rightarrow> int \<Rightarrow> int" where
  "getColumnIndex text record index = index + 1"

text \<open>
  The toolkit's table calls a column's render function once per row of the data it
  shows, with the cell's value, the row and the row's position in that data, from 0.
\<close>

definition render_column ::
  "(jsval \<Rightarrow> obj \<Rightarrow> int \<Rightarrow> 'a) \<Rightarrow> string \<Rightarrow> obj list \<Rightarrow> 'a list" where
  "render_column render dataIndex rows =
     map (\<lambda>(i, record). render (get_prop record dataIndex) record (int i)) (enumerate 0 rows)"

definition index_column :: "Table \<Rightarrow> int list" where
  "index_column t = render_column getColumnIndex ''$index'' (dataSource (state t))"

section \<open>Events\<close>

text \<open>
  What can happen to a mounted grid: a click on an icon that the column's render shows
  for the row in the current state, a save from a cell, a reload, a change of page or
  sort order, and the discarding of pending edits. A click on an icon that is not
  rendered cannot happen: \<open>fire\<close> gives \<open>None\<close>.
\<close>

datatype event =
    Click string obj control
  | CellSave "obj list" obj
  | Reload "obj option"
  | Change int int TableSorter
  | EditStash

fun fire :: "Props \<Rightarrow> event \<Rightarrow> Table \<Rightarrow> Table option" where
  "fire P (Click dataIndex record c) t =
     (if c \<in> set (column_controls P dataIndex record t)
      then Some (case c of
                   EditIcon \<Rightarrow> edit_onClick P record t
                 | DeleteIcon \<Rightarrow> delete_onClick P record t
                 | CheckIcon \<Rightarrow> check_onClick P record t
                 | UndoIcon \<Rightarrow> undo_onClick t)
      else None)"
| "fire P (CellSave ds values) t = Some (fst (cell_onSave P ds values t))"
| "fire P (Reload par) t = Some (reload P par t)"
| "fire P (Change current psize srt) t = Some (onChange P current psize srt t)"
| "fire P EditStash t = Some (editStash t)"

text \<open>A sequence of events, each possible in the state the one before it left.\<close>

fun run :: "Props \<Rightarrow> event list \<Rightarrow> Table \<Rightarrow> Table option" where
  "run P [] t = Some t"
| "run P (e # es) t = (case fire P e t of None \<Rightarrow> None | Some t' \<Rightarrow> run P es t')"

text \<open>Some row is being edited in every state in which an event of the sequence fires.\<close>

fun editing_throughout :: "Props \<Rightarrow> event list \<Rightarrow> Table \<Rightarrow> bool" where
  "editing_throughout P [] t = True"
| "editing_throughout P (e # es) t =
     (editingKey (state t) \<noteq> JUndefined \<and>
      (case fire P e t of None \<Rightarrow> False | Some t' \<Rightarrow> editing_throughout P es t'))"

text \<open>An object has each of its keys once; a list of pairs need not.\<close>

definition wf_obj :: "obj \<Rightarrow> bool" where
  "wf_obj ob = distinct (map fst ob)"

text \<open>What a cell saves is an object.\<close>

fun saves_object :: "event \<Rightarrow> bool" where
  "saves_object (CellSave ds values) = wf_obj values"
| "saves_object (Click dataIndex record c) = True"
| "saves_object (Reload par) = True"
| "saves_object (Change current psize srt) = True"
| "saves_object EditStash = True"

section \<open>The tree\<close>

text \<open>
  The tree widget (the source file with \<^verbatim>\<open>class Tree\<close>) changes a node object that is
  shared between the rendered tree and the caller, and replaces the array held in its
  state. Node objects and arrays therefore live in a store and are named by references:
  \<open>nodes\<close> and \<open>arrays\<close> give what a reference holds, and the references below \<open>fresh\<close>
  are the ones in use. \<open>children\<close> of a node is the reference of an array of node
  references, or absent.
\<close>

type_synonym ref = nat

record TreeNodeData =
  key :: string
  title :: string
  dataRef :: jsval
  children :: "ref option"

record Tree =
  nodes :: "ref \<Rightarrow> TreeNodeData"
  arrays :: "ref \<Rightarrow> ref list"
  fresh :: ref
  treeData :: ref

text \<open>The array literal \<^verbatim>\<open>[...xs]\<close>: a new array with the elements of \<open>xs\<close>.\<close>

definition clone_array :: "ref \<Rightarrow> Tree \<Rightarrow> ref \<times> Tree" where
  "clone_array xs tr =
     (fresh tr, tr\<lparr>arrays := (arrays tr)(fresh tr := arrays tr xs), fresh := Suc (fresh tr)\<rparr>)"

text \<open>
  \<^verbatim>\<open>onLoadData(node)\<close> from the point where the promise of \<^verbatim>\<open>props.loadData\<close> is
  settled: \<open>node\<close> is the reference \<^verbatim>\<open>node.props.dataRef\<close>, \<open>resolution\<close> is what the
  promise resolved with (\<open>None\<close> for \<^verbatim>\<open>undefined\<close> or \<^verbatim>\<open>null\<close>), and the store is the one
  the loader left.
\<close>

definition onLoadData :: "ref \<Rightarrow> ref option outcome \<Rightarrow> Tree \<Rightarrow> Tree" where
  "onLoadData node resolution tr =
     (case resolution of
        Unsettled \<Rightarrow> tr
      | Resolves None \<Rightarrow> tr
      | Resolves (Some loaded) \<Rightarrow>
          (if length (arrays tr loaded) > 0
           then (let tr1 = tr\<lparr>nodes := (nodes tr)(node := (nodes tr node)\<lparr>children := Some loaded\<rparr>)\<rparr>;
                     (copy, tr2) = clone_array (treeData tr1) tr1
                 in tr2\<lparr>treeData := copy\<rparr>)
           else tr))"

section \<open>Example grids and an example tree\<close>

text \<open>Props for the examples: a loader that resolves with no rows, the default props.\<close>

definition example_props :: Props where
  "example_props =
     \<lparr>loadData = (\<lambda>a. Resolves ([], 0)), defaultPageSize = 300, defaultParam = [],
      rowKey = ''id'', onRow = None, onSave = None, form = None\<rparr>"

text \<open>A grid with staged rows in all three collections and one editor cell open.\<close>

definition staged_table :: Table where
  "staged_table =
     initial\<lparr>dataSourceState :=
         \<lparr>update = [[(''id'', JNum 1), (''n'', JStr ''x'')]],
          delete = [[(''id'', JNum 2)]],
          create = [[(''id'', JNum 3)]]\<rparr>,
       currentEditorCell := [Resolves ()]\<rparr>"

text \<open>
  A loader that answers every request with one row and a total of 41, and a default
  parameter.
\<close>

definition one_row_props :: Props where
  "one_row_props =
     example_props\<lparr>loadData := (\<lambda>a. Resolves ([[(''id'', JNum 7)]], 41)),
       defaultParam := [(''a'', JNum 1), (''b'', JNum 2)]\<rparr>"

text \<open>
  Two rows, a caller that listens to row clicks, and a grid that shows the two rows with
  the first of them in edit mode.
\<close>

definition row1 :: obj where
  "row1 = [(''id'', JNum 1), (''n'', JStr ''x'')]"

definition row2 :: obj where
  "row2 = [(''id'', JNum 2), (''n'', JStr ''y'')]"

definition listening_props :: Props where
  "listening_props = example_props\<lparr>onRow := Some (\<lambda>record index. [(''onClick'', 0)])\<rparr>"

definition editing_table :: Table where
  "editing_table =
     setState (\<lambda>s. s\<lparr>dataSource := [row1, row2], editingKey := JNum 1\<rparr>) initial"

text \<open>
  A grid that shows the two rows and edits none, and a caller whose save hook resolves
  \<^verbatim>\<open>undefined\<close>.
\<close>

definition two_rows_table :: Table where
  "two_rows_table =
     setState (\<lambda>s. s\<lparr>dataSource := [row1, row2], total := 2, loading := False\<rparr>) initial"

definition saving_props :: Props where
  "saving_props = one_row_props\<lparr>onSave := Some (\<lambda>record kind. Resolves None)\<rparr>"

text \<open>A save hook that resolves \<^verbatim>\<open>false\<close>, and an edit of the first row.\<close>

definition failing_props :: Props where
  "failing_props = example_props\<lparr>onSave := Some (\<lambda>record kind. Resolves (Some False))\<rparr>"

definition row1_edited :: obj where
  "row1_edited = [(''id'', JNum 1), (''n'', JStr ''z'')]"

text \<open>A form whose field \<^verbatim>\<open>n;0\<close> validates to \<^verbatim>\<open>"z"\<close>.\<close>

definition form_props :: Props where
  "form_props = example_props\<lparr>form := Some (Valid [(''n;0'', JStr ''z'')])\<rparr>"

text \<open>Another edit of the first row, and an edit of the second.\<close>

definition row1_saved :: obj where
  "row1_saved = [(''id'', JNum 1), (''n'', JStr ''w'')]"

definition row2_edited :: obj where
  "row2_edited = [(''id'', JNum 2), (''n'', JNull)]"

text \<open>A loader over a data set of 95 rows with the ids 1 to 95, ten to a page at most.\<close>

definition page_rows :: "int \<Rightarrow> obj list" where
  "page_rows start = map (\<lambda>i. [(''id'', JNum (start + i))]) [1, 2, 3, 4, 5, 6, 7, 8, 9, 10]"

definition paged_props :: Props where
  "paged_props =
     example_props\<lparr>loadData :=
       (\<lambda>a. Resolves (page_rows ((load_args.page a - 1) * load_args.pageSize a), 95))\<rparr>"

text \<open>
  A tree with the root nodes 0 and 1 in the root array 0; the loader has answered the
  expansion of node 1 with the array 1 holding the new node 2, and that of node 0 with
  the empty array 2.
\<close>

definition leaf :: "string \<Rightarrow> TreeNodeData" where
  "leaf k = \<lparr>key = k, title = k, dataRef = JNull, children = None\<rparr>"

definition example_tree :: Tree where
  "example_tree =
     \<lparr>nodes = (\<lambda>r. if r = 0 then leaf ''a'' else if r = 1 then leaf ''b'' else leaf ''c''),
      arrays = (\<lambda>r. if r = 0 then [0, 1] else if r = 1 then [2] else []),
      fresh = 3,
      treeData = 0\<rparr>"

section \<open>Objects: lookup after assignment and spread\<close>

lemma map_of_set_prop: "map_of (set_prop k v ob) = (map_of ob)(k \<mapsto> v)"
  by (induction ob) auto

lemma keys_dom: "keys ob = dom (map_of ob)"
  by (simp add: keys_def dom_map_of_conv_image_fst)

lemma keys_Nil: "keys [] = {}"
  by (simp add: keys_def)

lemma keys_Cons: "keys ((k, v) # ps) = insert k (keys ps)"
  by (simp add: keys_def)

lemma get_prop_set_prop:
  "get_prop (set_prop k v ob) k' = (if k' = k then v else get_prop ob k')"
  by (simp add: get_prop_def map_of_set_prop)

lemma keys_set_prop: "keys (set_prop k v ob) = insert k (keys ob)"
  by (simp add: keys_dom map_of_set_prop)

lemma keys_spread: "keys (spread tgt src) = keys tgt \<union> keys src"
proof (induction src arbitrary: tgt)
  case Nil
  show ?case by (simp add: keys_Nil)
next
  case (Cons p ps)
  obtain k v where p: "p = (k, v)" by (cases p)
  have "keys (spread (set_prop k v tgt) ps) = keys (set_prop k v tgt) \<union> keys ps"
    by (rule Cons.IH)
  then show ?case
    by (simp add: p keys_set_prop keys_Cons)
qed

lemma get_prop_notin: "k \<notin> keys ob \<Longrightarrow> get_prop ob k = JUndefined"
  by (auto simp: get_prop_def keys_dom split: option.splits)

lemma get_prop_Cons:
  "get_prop ((k', v) # ps) k = (if k = k' then v else get_prop ps k)"
  by (simp add: get_prop_def)

text \<open>
  For a source that has each key once, the spread gives its value to each of its keys
  and leaves the others as they were.
\<close>

lemma get_prop_spread:
  "distinct (map fst src) \<Longrightarrow>
   get_prop (spread tgt src) k = (if k \<in> keys src then get_prop src k else get_prop tgt k)"
proof (induction src arbitrary: tgt)
  case Nil
  show ?case by (simp add: keys_Nil)
next
  case (Cons p ps)
  obtain k' v where p: "p = (k', v)" by (cases p)
  from Cons.prems have d: "distinct (map fst ps)" and n: "k' \<notin> keys ps"
    by (auto simp: p keys_def)
  have step: "get_prop (spread (set_prop k' v tgt) ps) k =
        (if k \<in> keys ps then get_prop ps k else get_prop (set_prop k' v tgt) k)"
    by (rule Cons.IH [OF d])
  show ?case
  proof (cases "k = k'")
    case True
    with n step show ?thesis
      by (simp add: p keys_Cons get_prop_set_prop get_prop_Cons)
  next
    case False
    with step show ?thesis
      by (simp add: p keys_Cons get_prop_set_prop get_prop_Cons)
  qed
qed

section \<open>What a load leaves unchanged, and what it calls\<close>

lemma editStash_frame:
  "state (editStash t) = state t"
  "REQUEST_PARAM (editStash t) = REQUEST_PARAM t"
  "calls (editStash t) = calls t"
  "currentEditorCell (editStash t) = currentEditorCell t"
  by (simp_all add: editStash_def)

lemma setState_frame:
  "state (setState f t) = f (state t)"
  "REQUEST_PARAM (setState f t) = REQUEST_PARAM t"
  "calls (setState f t) = calls t"
  "dataSourceState (setState f t) = dataSourceState t"
  "currentEditorCell (setState f t) = currentEditorCell t"
  by (simp_all add: setState_def)

lemma requestLoadData_calls:
  "calls (requestLoadData P a t) = calls t @ [LoadData (loadData_args P a t)]"
  by (simp add: requestLoadData_def requestLoadData_issue_def requestLoadData_then_def
      editStash_frame setState_frame Let_def split: outcome.splits)

lemma requestLoadData_REQUEST_PARAM:
  "REQUEST_PARAM (requestLoadData P a t) = REQUEST_PARAM t"
  by (simp add: requestLoadData_def requestLoadData_issue_def requestLoadData_then_def
      editStash_frame setState_frame Let_def split: outcome.splits)

lemma reload_REQUEST_PARAM:
  "REQUEST_PARAM (reload P par t) = (case par of None \<Rightarrow> REQUEST_PARAM t | Some p \<Rightarrow> p)"
  by (simp add: reload_def requestLoadData_REQUEST_PARAM Let_def split: option.splits)

lemma reload_calls:
  "calls (reload P par t) = calls t @
     [LoadData (loadData_args P (reload_args P par t)
        (case par of None \<Rightarrow> t | Some p \<Rightarrow> t\<lparr>REQUEST_PARAM := p\<rparr>))]"
  by (simp add: reload_def requestLoadData_calls reload_args_def Let_def
      split: option.splits)

section \<open>Parameter layering on reload\<close>

lemma requestLoadData_paging:
  "State.page (state (requestLoadData P a t)) = State.page (state t)"
  "State.pageSize (state (requestLoadData P a t)) = State.pageSize (state t)"
  "State.sorter (state (requestLoadData P a t)) = State.sorter (state t)"
  by (simp_all add: requestLoadData_def requestLoadData_issue_def requestLoadData_then_def
      editStash_frame setState_frame Let_def split: outcome.splits)

lemma reload_paging:
  "State.page (state (reload P par t)) = State.page (state t)"
  "State.pageSize (state (reload P par t)) = State.pageSize (state t)"
  "State.sorter (state (reload P par t)) = State.sorter (state t)"
  by (simp_all add: reload_def requestLoadData_paging Let_def split: option.splits)

text \<open>
  The stored parameter layered over the default parameter, key by key: a key of the
  stored object has the stored value, any other key the value the default gives it.
\<close>

lemma layered_lookup:
  assumes "wf_obj q" and "wf_obj d"
  shows "get_prop (spread (spread [] d) q) k =
     (if k \<in> keys q then get_prop q k else get_prop d k)"
proof -
  have outer: "get_prop (spread (spread [] d) q) k =
      (if k \<in> keys q then get_prop q k else get_prop (spread [] d) k)"
    using assms(1) unfolding wf_obj_def by (rule get_prop_spread)
  have inner: "get_prop (spread [] d) k = (if k \<in> keys d then get_prop d k else get_prop [] k)"
    using assms(2) unfolding wf_obj_def by (rule get_prop_spread)
  have "get_prop [] k = JUndefined"
    by (simp add: get_prop_def)
  then have "get_prop (spread [] d) k = get_prop d k"
    using inner by (simp add: get_prop_notin)
  with outer show ?thesis by simp
qed

text \<open>
  C10. \<^verbatim>\<open>reload(param)\<close> with an object stores that object as the request parameter, the
  whole of it and nothing of the object stored before: a key that \<open>param\<close> does not have
  reads as \<^verbatim>\<open>undefined\<close> in what is stored. \<^verbatim>\<open>reload()\<close> leaves the stored object as it
  is and sends it, layered over the default parameter, to the loader: the object sent
  has the keys of both, each key of the stored object with the stored value and every
  other key with the default's. A \<^verbatim>\<open>reload()\<close> after a \<^verbatim>\<open>reload(param)\<close> therefore sends
  \<open>param\<close> over the defaults, as the second of the two requests.
\<close>

theorem reload_replaces_request_param:
  "REQUEST_PARAM (reload P (Some p) t) = p \<and>
   (k \<notin> keys p \<longrightarrow> get_prop (REQUEST_PARAM (reload P (Some p) t)) k = JUndefined) \<and>
   REQUEST_PARAM (reload P None t) = REQUEST_PARAM t \<and>
   calls (reload P None t) = calls t @
     [LoadData \<lparr>load_args.page = State.page (state t),
        load_args.pageSize =
          (if State.pageSize (state t) \<noteq> 0 then State.pageSize (state t)
           else defaultPageSize P),
        load_args.param = spread (spread [] (defaultParam P)) (REQUEST_PARAM t),
        load_args.sorter = State.sorter (state t)\<rparr>] \<and>
   keys (spread (spread [] (defaultParam P)) (REQUEST_PARAM t)) =
     keys (defaultParam P) \<union> keys (REQUEST_PARAM t) \<and>
   (wf_obj (REQUEST_PARAM t) \<and> wf_obj (defaultParam P) \<longrightarrow>
      get_prop (spread (spread [] (defaultParam P)) (REQUEST_PARAM t)) k =
        (if k \<in> keys (REQUEST_PARAM t) then get_prop (REQUEST_PARAM t) k
         else get_prop (defaultParam P) k)) \<and>
   REQUEST_PARAM (reload P None (reload P (Some p) t)) = p \<and>
   calls (reload P None (reload P (Some p) t)) = calls t @
     [LoadData \<lparr>load_args.page = State.page (state t),
        load_args.pageSize =
          (if State.pageSize (state t) \<noteq> 0 then State.pageSize (state t)
           else defaultPageSize P),
        load_args.param = spread (spread (spread [] p) (defaultParam P)) p,
        load_args.sorter = State.sorter (state t)\<rparr>,
      LoadData \<lparr>load_args.page = State.page (state t),
        load_args.pageSize =
          (if State.pageSize (state t) \<noteq> 0 then State.pageSize (state t)
           else defaultPageSize P),
        load_args.param = spread (spread [] (defaultParam P)) p,
        load_args.sorter = State.sorter (state t)\<rparr>] \<and>
   (wf_obj p \<and> wf_obj (defaultParam P) \<longrightarrow>
      get_prop (spread (spread [] (defaultParam P)) p) k =
        (if k \<in> keys p then get_prop p k else get_prop (defaultParam P) k))"
proof -
  have stored: "REQUEST_PARAM (reload P (Some p) t) = p"
    by (simp add: reload_REQUEST_PARAM)
  have forgotten: "k \<notin> keys p \<longrightarrow>
      get_prop (REQUEST_PARAM (reload P (Some p) t)) k = JUndefined"
    by (simp add: stored get_prop_notin)
  have kept: "REQUEST_PARAM (reload P None t') = REQUEST_PARAM t'" for t'
    by (simp add: reload_REQUEST_PARAM)
  have sent: "calls (reload P None t') = calls t' @
     [LoadData \<lparr>load_args.page = State.page (state t'),
        load_args.pageSize =
          (if State.pageSize (state t') \<noteq> 0 then State.pageSize (state t')
           else defaultPageSize P),
        load_args.param = spread (spread [] (defaultParam P)) (REQUEST_PARAM t'),
        load_args.sorter = State.sorter (state t')\<rparr>]" for t'
    by (simp add: reload_calls loadData_args_def reload_args_def merged_param_def
        spread_opt_def)
  have first: "calls (reload P (Some p) t) = calls t @
     [LoadData \<lparr>load_args.page = State.page (state t),
        load_args.pageSize =
          (if State.pageSize (state t) \<noteq> 0 then State.pageSize (state t)
           else defaultPageSize P),
        load_args.param = spread (spread (spread [] p) (defaultParam P)) p,
        load_args.sorter = State.sorter (state t)\<rparr>]"
    by (simp add: reload_calls loadData_args_def reload_args_def merged_param_def
        spread_opt_def)
  have both: "calls (reload P None (reload P (Some p) t)) = calls t @
     [LoadData \<lparr>load_args.page = State.page (state t),
        load_args.pageSize =
          (if State.pageSize (state t) \<noteq> 0 then State.pageSize (state t)
           else defaultPageSize P),
        load_args.param = spread (spread (spread [] p) (defaultParam P)) p,
        load_args.sorter = State.sorter (state t)\<rparr>,
      LoadData \<lparr>load_args.page = State.page (state t),
        load_args.pageSize =
          (if State.pageSize (state t) \<noteq> 0 then State.pageSize (state t)
           else defaultPageSize P),
        load_args.param = spread (spread [] (defaultParam P)) p,
        load_args.sorter = State.sorter (state t)\<rparr>]"
    by (simp add: sent [of "reload P (Some p) t"] first stored reload_paging)
  have all_keys: "keys (spread (spread [] (defaultParam P)) (REQUEST_PARAM t)) =
      keys (defaultParam P) \<union> keys (REQUEST_PARAM t)"
    by (simp add: keys_spread keys_Nil)
  have by_key: "wf_obj q \<and> wf_obj (defaultParam P) \<longrightarrow>
      get_prop (spread (spread [] (defaultParam P)) q) k =
        (if k \<in> keys q then get_prop q k else get_prop (defaultParam P) k)" for q
    using layered_lookup [of q "defaultParam P" k] by blast
  from stored forgotten kept [of t] kept [of "reload P (Some p) t"] sent [of t] both
    all_keys by_key [of "REQUEST_PARAM t"] by_key [of p]
  show ?thesis by simp
qed

theorem reload_replaces_request_param_witness:
  "REQUEST_PARAM (reload one_row_props (Some [(''c'', JNum 4)])
      (initial\<lparr>REQUEST_PARAM := [(''b'', JNum 3), (''d'', JNum 6)]\<rparr>)) = [(''c'', JNum 4)] \<and>
   get_prop (REQUEST_PARAM (reload one_row_props (Some [(''c'', JNum 4)])
      (initial\<lparr>REQUEST_PARAM := [(''b'', JNum 3), (''d'', JNum 6)]\<rparr>))) ''b'' = JUndefined \<and>
   REQUEST_PARAM (reload one_row_props None
      (initial\<lparr>REQUEST_PARAM := [(''b'', JNum 3), (''d'', JNum 6)]\<rparr>)) =
     [(''b'', JNum 3), (''d'', JNum 6)] \<and>
   calls (reload one_row_props None
      (initial\<lparr>REQUEST_PARAM := [(''b'', JNum 3), (''d'', JNum 6)]\<rparr>)) =
     [LoadData \<lparr>load_args.page = 1, load_args.pageSize = 300,
        load_args.param = [(''a'', JNum 1), (''b'', JNum 3), (''d'', JNum 6)],
        load_args.sorter = None\<rparr>] \<and>
   get_prop [(''a'', JNum 1), (''b'', JNum 3), (''d'', JNum 6)] ''b'' = JNum 3 \<and>
   calls (reload one_row_props None (reload one_row_props (Some [(''c'', JNum 4)])
      (initial\<lparr>REQUEST_PARAM := [(''b'', JNum 3), (''d'', JNum 6)]\<rparr>))) =
     [LoadData \<lparr>load_args.page = 1, load_args.pageSize = 300,
        load_args.param = [(''c'', JNum 4), (''a'', JNum 1), (''b'', JNum 2)],
        load_args.sorter = None\<rparr>,
      LoadData \<lparr>load_args.page = 1, load_args.pageSize = 300,
        load_args.param = [(''a'', JNum 1), (''b'', JNum 2), (''c'', JNum 4)],
        load_args.sorter = None\<rparr>]"
  using reload_replaces_request_param
    [where P = one_row_props and p = "[(''c'', JNum 4)]" and k = "''b''"
       and t = "initial\<lparr>REQUEST_PARAM := [(''b'', JNum 3), (''d'', JNum 6)]\<rparr>"]
  by (simp add: one_row_props_def example_props_def initial_def get_prop_def keys_def
      wf_obj_def)

text \<open>
  C1, as the spec states it, at the spec's own example: default parameter \<open>{a:1,b:2}\<close>,
  stored request parameter \<open>{b:3}\<close>, \<^verbatim>\<open>reload({c:4})\<close>. The stored \<open>{b:3}\<close> is replaced
  before the merge, so the loader receives \<open>b = 2\<close>, not \<open>b = 3\<close>.
\<close>

theorem reload_layering_counterexample:
  "calls (reload (example_props\<lparr>defaultParam := [(''a'', JNum 1), (''b'', JNum 2)]\<rparr>)
      (Some [(''c'', JNum 4)]) (initial\<lparr>REQUEST_PARAM := [(''b'', JNum 3)]\<rparr>)) =
     [LoadData \<lparr>load_args.page = 1, load_args.pageSize = 300,
        load_args.param = [(''c'', JNum 4), (''a'', JNum 1), (''b'', JNum 2)],
        load_args.sorter = None\<rparr>] \<and>
   get_prop [(''c'', JNum 4), (''a'', JNum 1), (''b'', JNum 2)] ''b'' \<noteq> JNum 3"
  by (simp add: reload_calls loadData_args_def reload_args_def
      merged_param_def spread_opt_def example_props_def initial_def get_prop_def)

text \<open>
  C1, amended. On \<^verbatim>\<open>reload(param)\<close> the loader receives the default parameter
  overlaid with \<open>param\<close>: every key of \<open>param\<close> has the value \<open>param\<close> gives it, every
  other key the value of the default parameter, and the request parameter stored before
  the call has no part in it.
\<close>

theorem reload_param_layering:
  assumes "wf_obj p" and "wf_obj (defaultParam P)"
  shows "calls (reload P (Some p) t) = calls t @
     [LoadData \<lparr>load_args.page = State.page (state t),
        load_args.pageSize =
          (if State.pageSize (state t) \<noteq> 0 then State.pageSize (state t)
           else defaultPageSize P),
        load_args.param = spread (spread (spread [] p) (defaultParam P)) p,
        load_args.sorter = State.sorter (state t)\<rparr>] \<and>
   get_prop (spread (spread (spread [] p) (defaultParam P)) p) k =
     (if k \<in> keys p then get_prop p k else get_prop (defaultParam P) k)"
proof -
  have sent: "calls (reload P (Some p) t) = calls t @
     [LoadData \<lparr>load_args.page = State.page (state t),
        load_args.pageSize =
          (if State.pageSize (state t) \<noteq> 0 then State.pageSize (state t)
           else defaultPageSize P),
        load_args.param = spread (spread (spread [] p) (defaultParam P)) p,
        load_args.sorter = State.sorter (state t)\<rparr>]"
    by (simp add: reload_calls loadData_args_def reload_args_def
        merged_param_def spread_opt_def)
  have outer: "get_prop (spread (spread (spread [] p) (defaultParam P)) p) k =
      (if k \<in> keys p then get_prop p k
       else get_prop (spread (spread [] p) (defaultParam P)) k)"
    using assms(1) unfolding wf_obj_def by (rule get_prop_spread)
  have inner: "get_prop (spread (spread [] p) (defaultParam P)) k = get_prop (defaultParam P) k"
    if "k \<notin> keys p"
  proof -
    have "get_prop (spread (spread [] p) (defaultParam P)) k =
        (if k \<in> keys (defaultParam P) then get_prop (defaultParam P) k
         else get_prop (spread [] p) k)"
      using assms(2) unfolding wf_obj_def by (rule get_prop_spread)
    moreover have "k \<notin> keys (spread [] p)"
      using that by (simp add: keys_spread keys_Nil)
    ultimately show ?thesis
      by (simp add: get_prop_notin)
  qed
  from sent outer inner show ?thesis by simp
qed

theorem reload_param_layering_witness:
  "calls (reload (example_props\<lparr>defaultParam := [(''a'', JNum 1), (''b'', JNum 2)]\<rparr>)
      (Some [(''c'', JNum 4), (''b'', JNum 5)])
      (initial\<lparr>REQUEST_PARAM := [(''b'', JNum 3), (''d'', JNum 6)]\<rparr>)) =
     [LoadData \<lparr>load_args.page = 1, load_args.pageSize = 300,
        load_args.param = [(''c'', JNum 4), (''b'', JNum 5), (''a'', JNum 1)],
        load_args.sorter = None\<rparr>] \<and>
   get_prop [(''c'', JNum 4), (''b'', JNum 5), (''a'', JNum 1)] ''b'' = JNum 5"
  using reload_param_layering
    [of "[(''c'', JNum 4), (''b'', JNum 5)]"
        "example_props\<lparr>defaultParam := [(''a'', JNum 1), (''b'', JNum 2)]\<rparr>"
        "initial\<lparr>REQUEST_PARAM := [(''b'', JNum 3), (''d'', JNum 6)]\<rparr>" "''b''"]
  by (simp add: example_props_def initial_def get_prop_def keys_def wf_obj_def)

section \<open>A completed load\<close>

lemma requestLoadData_issue_eq:
  "requestLoadData_issue P a t =
     t\<lparr>state := (state t)\<lparr>loading := True\<rparr>,
       calls := calls t @
         [LoadData \<lparr>load_args.page = request_args.page a,
            load_args.pageSize = request_args.pageSize a,
            load_args.param =
              spread (spread (spread_opt [] (request_args.param a)) (defaultParam P))
                (REQUEST_PARAM t),
            load_args.sorter = request_args.sorter a\<rparr>]\<rparr>"
  by (simp add: requestLoadData_issue_def setState_def loadData_args_def merged_param_def)

lemma requestLoadData_resolved:
  assumes "loadData P (loadData_args P a t) = Resolves r"
    and "list_all (\<lambda>c. c = Resolves ()) (currentEditorCell t)"
  shows "requestLoadData P a t =
     t\<lparr>state := (state t)\<lparr>dataSource := fst r, total := snd r, loading := False\<rparr>,
       dataSourceState := \<lparr>update = [], delete = [], create = []\<rparr>,
       calls := calls t @ [LoadData (loadData_args P a t)]\<rparr>"
  using assms
  by (simp add: requestLoadData_def requestLoadData_issue_def requestLoadData_then_def
      editStash_def setState_def)

lemma requestLoadData_unsettled:
  assumes "loadData P (loadData_args P a t) = Unsettled"
  shows "requestLoadData P a t = requestLoadData_issue P a t"
  using assms by (simp add: requestLoadData_def)

lemma requestLoadData_state:
  assumes "loadData P (loadData_args P a t) = Resolves r"
  shows "state (requestLoadData P a t) =
     (state t)\<lparr>dataSource := fst r, total := snd r, loading := False\<rparr>"
  using assms
  by (simp add: requestLoadData_def requestLoadData_issue_def requestLoadData_then_def
      editStash_frame setState_def)

lemma reload_resolved:
  assumes "calls (reload P par t) = calls t @ [LoadData a]"
    and "loadData P a = Resolves r"
    and "list_all (\<lambda>c. c = Resolves ()) (currentEditorCell t)"
  shows "reload P par t =
     t\<lparr>state := (state t)\<lparr>dataSource := fst r, total := snd r, loading := False\<rparr>,
       REQUEST_PARAM := (case par of None \<Rightarrow> REQUEST_PARAM t | Some p \<Rightarrow> p),
       dataSourceState := \<lparr>update = [], delete = [], create = []\<rparr>,
       calls := calls t @ [LoadData a]\<rparr>"
proof -
  define t1 where "t1 = (case par of None \<Rightarrow> t | Some p \<Rightarrow> t\<lparr>REQUEST_PARAM := p\<rparr>)"
  have args: "reload_args P par t1 = reload_args P par t"
    by (simp add: t1_def reload_args_def split: option.splits)
  have a: "a = loadData_args P (reload_args P par t) t1"
    using assms(1) by (simp add: reload_calls t1_def)
  have cells: "list_all (\<lambda>c. c = Resolves ()) (currentEditorCell t1)"
    using assms(3) by (simp add: t1_def split: option.splits)
  have "reload P par t = requestLoadData P (reload_args P par t) t1"
    by (simp add: reload_def t1_def args [unfolded t1_def] Let_def)
  also have "\<dots> =
     t1\<lparr>state := (state t1)\<lparr>dataSource := fst r, total := snd r, loading := False\<rparr>,
       dataSourceState := \<lparr>update = [], delete = [], create = []\<rparr>,
       calls := calls t1 @ [LoadData (loadData_args P (reload_args P par t) t1)]\<rparr>"
    using assms(2) cells unfolding a by (rule requestLoadData_resolved)
  finally show ?thesis
    by (simp add: a t1_def split: option.splits)
qed

text \<open>
  C4. Whatever the three collections hold, after \<^verbatim>\<open>reload\<close> whose load promise has
  resolved all three are empty, and \<^verbatim>\<open>editStatus\<close> reports no pending change. The
  clearing is done by \<^verbatim>\<open>editStash\<close>, which first waits for the hide transition of every
  registered editor cell; these are taken to complete. The grid itself registers no
  cell, so for it the list is empty.
\<close>

theorem reload_clears_diffs:
  assumes "calls (reload P par t) = calls t @ [LoadData a]"
    and "loadData P a = Resolves r"
    and "list_all (\<lambda>c. c = Resolves ()) (currentEditorCell t)"
  shows "update (dataSourceState (reload P par t)) = [] \<and>
         delete (dataSourceState (reload P par t)) = [] \<and>
         create (dataSourceState (reload P par t)) = [] \<and>
         \<not> editStatus (reload P par t)"
proof -
  have "dataSourceState (reload P par t) = \<lparr>update = [], delete = [], create = []\<rparr>"
    by (simp add: reload_resolved [OF assms])
  then have empty: "update (dataSourceState (reload P par t)) = []"
    "delete (dataSourceState (reload P par t)) = []"
    "create (dataSourceState (reload P par t)) = []"
    by simp_all
  then have "\<not> editStatus (reload P par t)"
    by (simp add: editStatus_def)
  with empty show ?thesis by simp
qed

theorem reload_clears_diffs_witness:
  "editStatus staged_table \<and>
   update (dataSourceState (reload example_props None staged_table)) = [] \<and>
   delete (dataSourceState (reload example_props None staged_table)) = [] \<and>
   create (dataSourceState (reload example_props None staged_table)) = [] \<and>
   \<not> editStatus (reload example_props None staged_table)"
proof -
  have sent: "calls (reload example_props None staged_table) = calls staged_table @
      [LoadData \<lparr>load_args.page = 1, load_args.pageSize = 300, load_args.param = [],
         load_args.sorter = None\<rparr>]"
    by (simp add: reload_calls loadData_args_def reload_args_def merged_param_def
        spread_opt_def example_props_def staged_table_def initial_def)
  have resolved: "loadData example_props
      \<lparr>load_args.page = 1, load_args.pageSize = 300, load_args.param = [],
       load_args.sorter = None\<rparr> = Resolves ([], 0)"
    by (simp add: example_props_def)
  have cells: "list_all (\<lambda>c. c = Resolves ()) (currentEditorCell staged_table)"
    by (simp add: staged_table_def)
  have before: "editStatus staged_table"
    by (simp add: editStatus_def staged_table_def)
  from reload_clears_diffs [OF sent resolved cells] before show ?thesis
    by simp
qed

text \<open>
  C7, as the spec states it: the loading flag is false once the request has been issued.
  A grid that is not loading is put into the loading state by the request.
\<close>

theorem load_flag_counterexample:
  "\<not> loading (state (setState (\<lambda>s. s\<lparr>loading := False\<rparr>) initial)) \<and>
   loading (state (requestLoadData_issue example_props
      \<lparr>request_args.page = 1, request_args.pageSize = 300, request_args.param = None,
       request_args.sorter = None\<rparr>
      (setState (\<lambda>s. s\<lparr>loading := False\<rparr>) initial)))"
  by (simp add: requestLoadData_issue_def setState_def)

text \<open>
  C7, amended. A load sets the loading flag true and calls the loader with the page, the
  page size, the sort descriptor and the three parameter layers merged (the ad-hoc
  parameter lowest, the stored request parameter highest); when the loader's promise has
  resolved, the data set and the total are those of the response, the loading flag is
  false, the three collections are empty, and nothing else has changed. As for C4 the
  hide transitions of the registered editor cells are taken to complete.
\<close>

theorem requestLoadData_effect:
  assumes "loadData P (loadData_args P a t) = Resolves (rows, n)"
    and "list_all (\<lambda>c. c = Resolves ()) (currentEditorCell t)"
  shows "requestLoadData_issue P a t =
     t\<lparr>state := (state t)\<lparr>loading := True\<rparr>,
       calls := calls t @
         [LoadData \<lparr>load_args.page = request_args.page a,
            load_args.pageSize = request_args.pageSize a,
            load_args.param =
              spread (spread (spread_opt [] (request_args.param a)) (defaultParam P))
                (REQUEST_PARAM t),
            load_args.sorter = request_args.sorter a\<rparr>]\<rparr> \<and>
   requestLoadData P a t =
     t\<lparr>state := (state t)\<lparr>dataSource := rows, total := n, loading := False\<rparr>,
       dataSourceState := \<lparr>update = [], delete = [], create = []\<rparr>,
       calls := calls t @
         [LoadData \<lparr>load_args.page = request_args.page a,
            load_args.pageSize = request_args.pageSize a,
            load_args.param =
              spread (spread (spread_opt [] (request_args.param a)) (defaultParam P))
                (REQUEST_PARAM t),
            load_args.sorter = request_args.sorter a\<rparr>]\<rparr>"
  using requestLoadData_resolved [OF assms]
  by (simp add: requestLoadData_issue_eq loadData_args_def merged_param_def)

theorem requestLoadData_effect_witness:
  "loading (state (requestLoadData_issue one_row_props
      \<lparr>request_args.page = 2, request_args.pageSize = 10,
       request_args.param = Some [(''c'', JNum 4)], request_args.sorter = None\<rparr>
      (staged_table\<lparr>REQUEST_PARAM := [(''b'', JNum 3)]\<rparr>))) \<and>
   requestLoadData one_row_props
      \<lparr>request_args.page = 2, request_args.pageSize = 10,
       request_args.param = Some [(''c'', JNum 4)], request_args.sorter = None\<rparr>
      (staged_table\<lparr>REQUEST_PARAM := [(''b'', JNum 3)]\<rparr>) =
     \<lparr>state = \<lparr>dataSource = [[(''id'', JNum 7)]], total = 41, loading = False,
        page = 1, pageSize = 0, sorter = None, editingKey = JUndefined\<rparr>,
      REQUEST_PARAM = [(''b'', JNum 3)],
      dataSourceState = \<lparr>update = [], delete = [], create = []\<rparr>,
      currentEditorCell = [Resolves ()],
      calls = [LoadData \<lparr>load_args.page = 2, load_args.pageSize = 10,
        load_args.param = [(''c'', JNum 4), (''a'', JNum 1), (''b'', JNum 3)],
        load_args.sorter = None\<rparr>]\<rparr>"
  using requestLoadData_effect
    [of one_row_props
        "\<lparr>request_args.page = 2, request_args.pageSize = 10,
          request_args.param = Some [(''c'', JNum 4)], request_args.sorter = None\<rparr>"
        "staged_table\<lparr>REQUEST_PARAM := [(''b'', JNum 3)]\<rparr>"
        "[[(''id'', JNum 7)]]" 41]
  by (simp add: one_row_props_def example_props_def staged_table_def initial_def
      spread_opt_def)

section \<open>Row edit mode\<close>

lemma requestLoadData_editingKey:
  "editingKey (state (requestLoadData P a t)) = editingKey (state t)"
  by (simp add: requestLoadData_def requestLoadData_issue_def requestLoadData_then_def
      editStash_frame setState_frame Let_def split: outcome.splits)

lemma reload_editingKey:
  "editingKey (state (reload P par t)) = editingKey (state t)"
  by (simp add: reload_def requestLoadData_editingKey Let_def split: option.splits)

lemma delete_onClick_editingKey:
  "editingKey (state (delete_onClick P record t)) = editingKey (state t)"
  by (simp add: delete_onClick_def reload_editingKey Let_def
      split: option.splits outcome.splits)

lemma check_onClick_editingKey:
  "editingKey (state (check_onClick P record t)) = editingKey (state t) \<or>
   editingKey (state (check_onClick P record t)) = JUndefined"
  by (simp add: check_onClick_def setState_frame Let_def
      split: option.splits outcome.splits validation.splits)

lemma cell_onSave_editingKey:
  "editingKey (state (fst (cell_onSave P ds values t))) = editingKey (state t)"
  by (simp add: cell_onSave_def setState_def Let_def split: option.splits outcome.splits)

lemma edit_icon_hidden:
  assumes "editingKey (state t) \<noteq> JUndefined"
  shows "EditIcon \<notin> set (column_controls P dataIndex record t)"
  using assms
  by (simp add: column_controls_def getColumnOperating_def getColumnOperatingEdit_def
      getColumnOperatingDel_def getColumnOperatingRender_def)

lemma fire_editingKey:
  assumes "editingKey (state t) \<noteq> JUndefined" and "fire P e t = Some t'"
  shows "editingKey (state t') = editingKey (state t) \<or> editingKey (state t') = JUndefined"
proof (cases e)
  case (Click dataIndex row c)
  with assms(2) have shown: "c \<in> set (column_controls P dataIndex row t)"
    and t': "t' = (case c of
                   EditIcon \<Rightarrow> edit_onClick P row t
                 | DeleteIcon \<Rightarrow> delete_onClick P row t
                 | CheckIcon \<Rightarrow> check_onClick P row t
                 | UndoIcon \<Rightarrow> undo_onClick t)"
    by (auto split: if_splits)
  show ?thesis
  proof (cases c)
    case EditIcon
    with shown edit_icon_hidden [OF assms(1)] show ?thesis by blast
  next
    case DeleteIcon
    with t' show ?thesis by (simp add: delete_onClick_editingKey)
  next
    case CheckIcon
    with t' check_onClick_editingKey show ?thesis by simp
  next
    case UndoIcon
    with t' show ?thesis by (simp add: undo_onClick_def setState_frame)
  qed
next
  case (CellSave ds vals)
  with assms(2) show ?thesis by (auto simp: cell_onSave_editingKey)
next
  case (Reload par)
  with assms(2) show ?thesis by (auto simp: reload_editingKey)
next
  case (Change current psize srt)
  with assms(2) show ?thesis by (auto simp: onChange_def requestLoadData_editingKey)
next
  case EditStash
  with assms(2) show ?thesis by (auto simp: editStash_frame)
qed

lemma run_editingKey:
  assumes "run P es t = Some t'" and "editing_throughout P es t"
  shows "editingKey (state t') = editingKey (state t) \<or> editingKey (state t') = JUndefined"
  using assms
proof (induction es arbitrary: t)
  case Nil
  then show ?case by simp
next
  case (Cons e es)
  from Cons.prems obtain t1 where f: "fire P e t = Some t1"
    and r: "run P es t1 = Some t'" and th: "editing_throughout P es t1"
    and k: "editingKey (state t) \<noteq> JUndefined"
    by (auto split: option.splits)
  from Cons.IH [OF r th]
  have later: "editingKey (state t') = editingKey (state t1) \<or> editingKey (state t') = JUndefined" .
  from fire_editingKey [OF k f]
  have first: "editingKey (state t1) = editingKey (state t) \<or> editingKey (state t1) = JUndefined" .
  show ?case
  proof (cases es)
    case Nil
    with r first show ?thesis by simp
  next
    case (Cons e' es')
    with th have "editingKey (state t1) \<noteq> JUndefined" by simp
    with first later show ?thesis by auto
  qed
qed

text \<open>
  C5. Let the grid be editing the row with key \<open>k\<close>, a key that is neither \<^verbatim>\<open>undefined\<close>
  nor \<^verbatim>\<open>null\<close>. Two rows that are both in edit mode have the same key. For a row with a
  different key no column renders the edit icon, so the click that would enter edit mode
  on it cannot happen. Over any sequence of events during which the grid never is
  without an edited row, the edited key at the end is still \<open>k\<close>, or the last event has
  ended the editing. And \<^verbatim>\<open>onRow\<close> gives every row the empty listener map, whatever the
  caller's \<^verbatim>\<open>onRow\<close> returns.
\<close>

theorem exclusive_row_edit:
  assumes "editingKey (state t) = k" and "k \<noteq> JUndefined" and "k \<noteq> JNull"
  shows "(isEditing P r1 t \<and> isEditing P r2 t \<longrightarrow>
            get_prop r1 (rowKey P) = get_prop r2 (rowKey P)) \<and>
         (get_prop record (rowKey P) \<noteq> k \<longrightarrow>
            \<not> isEditing P record t \<and>
            EditIcon \<notin> set (column_controls P dataIndex record t) \<and>
            fire P (Click dataIndex record EditIcon) t = None) \<and>
         (run P es t = Some t' \<and> editing_throughout P es t \<longrightarrow>
            editingKey (state t') = k \<or> editingKey (state t') = JUndefined) \<and>
         onRow_listeners P record index t = []"
proof -
  have busy: "editingKey (state t) \<noteq> JUndefined"
    using assms by simp
  have one: "isEditing P r1 t \<and> isEditing P r2 t \<longrightarrow>
      get_prop r1 (rowKey P) = get_prop r2 (rowKey P)"
    by (simp add: isEditing_def)
  have other: "get_prop record (rowKey P) \<noteq> k \<longrightarrow>
      \<not> isEditing P record t \<and>
      EditIcon \<notin> set (column_controls P dataIndex record t) \<and>
      fire P (Click dataIndex record EditIcon) t = None"
    using edit_icon_hidden [OF busy, of P dataIndex "record"] assms(1)
    by (simp add: isEditing_def)
  have later: "run P es t = Some t' \<and> editing_throughout P es t \<longrightarrow>
      editingKey (state t') = k \<or> editingKey (state t') = JUndefined"
    using run_editingKey [of P es t t'] assms(1) by blast
  have rows: "onRow_listeners P record index t = []"
    using assms by (simp add: onRow_listeners_def)
  from one other later rows show ?thesis by blast
qed

theorem exclusive_row_edit_witness:
  "isEditing listening_props row1 editing_table \<and>
   \<not> isEditing listening_props row2 editing_table \<and>
   EditIcon \<notin> set (column_controls listening_props ''$operating'' row2 editing_table) \<and>
   fire listening_props (Click ''$operating'' row2 EditIcon) editing_table = None \<and>
   map_option (\<lambda>t. editingKey (state t))
     (run listening_props [Reload None, CellSave [row1, row2] row1] editing_table) =
     Some (JNum 1) \<and>
   onRow_listeners listening_props row2 1 editing_table = [] \<and>
   onRow_listeners listening_props row2 1 (undo_onClick editing_table) = [(''onClick'', 0)]"
proof -
  have k: "editingKey (state editing_table) = JNum 1"
    by (simp add: editing_table_def setState_def)
  have ran: "run listening_props [Reload None, CellSave [row1, row2] row1] editing_table =
      Some (the (run listening_props [Reload None, CellSave [row1, row2] row1] editing_table))"
    by simp
  have busy: "editing_throughout listening_props [Reload None, CellSave [row1, row2] row1]
      editing_table"
    by (simp add: reload_editingKey k)
  have other: "get_prop row2 (rowKey listening_props) \<noteq> JNum 1"
    by (simp add: row2_def listening_props_def example_props_def get_prop_def)
  have self: "isEditing listening_props row1 editing_table"
    by (simp add: isEditing_def k row1_def listening_props_def example_props_def get_prop_def)
  have idle: "onRow_listeners listening_props row2 1 (undo_onClick editing_table) =
      [(''onClick'', 0)]"
    by (simp add: onRow_listeners_def undo_onClick_def setState_def listening_props_def)
  from exclusive_row_edit
    [of editing_table "JNum 1" listening_props row1 row1 row2 "''$operating''"
        "[Reload None, CellSave [row1, row2] row1]"
        "the (run listening_props [Reload None, CellSave [row1, row2] row1] editing_table)" 1,
     OF k]
    ran busy other self idle
  show ?thesis
    by (simp add: reload_editingKey cell_onSave_editingKey k)
qed

section \<open>Delete\<close>

lemma delete_onClick_success:
  assumes "onSave P = Some hook" and "hook record DELETE = Resolves respState"
    and "respState \<noteq> Some False"
  shows "delete_onClick P record t =
     reload P None (t\<lparr>calls := calls t @ [OnSave record DELETE]\<rparr>)"
  using assms by (simp add: delete_onClick_def)

lemma delete_onClick_failure:
  assumes "onSave P = Some hook" and "hook record DELETE = Resolves (Some False)"
  shows "delete_onClick P record t = t\<lparr>calls := calls t @ [OnSave record DELETE]\<rparr>"
  using assms by (simp add: delete_onClick_def)

lemma reload_dataSource_unsettled:
  assumes "calls (reload P par t) = calls t @ [LoadData a]" and "loadData P a = Unsettled"
  shows "dataSource (state (reload P par t)) = dataSource (state t) \<and>
         total (state (reload P par t)) = total (state t)"
proof -
  define t1 where "t1 = (case par of None \<Rightarrow> t | Some p \<Rightarrow> t\<lparr>REQUEST_PARAM := p\<rparr>)"
  have args: "reload_args P par t1 = reload_args P par t"
    by (simp add: t1_def reload_args_def split: option.splits)
  have a: "a = loadData_args P (reload_args P par t) t1"
    using assms(1) by (simp add: reload_calls t1_def)
  have "reload P par t = requestLoadData P (reload_args P par t) t1"
    by (simp add: reload_def t1_def args [unfolded t1_def] Let_def)
  also have "\<dots> = requestLoadData_issue P (reload_args P par t) t1"
    using assms(2) unfolding a by (rule requestLoadData_unsettled)
  finally show ?thesis
    by (simp add: requestLoadData_issue_def setState_def t1_def split: option.splits)
qed

lemma reload_dataSource_resolved:
  assumes "calls (reload P par t) = calls t @ [LoadData a]"
    and "loadData P a = Resolves r"
  shows "dataSource (state (reload P par t)) = fst r \<and>
         total (state (reload P par t)) = snd r"
proof -
  define t1 where "t1 = (case par of None \<Rightarrow> t | Some p \<Rightarrow> t\<lparr>REQUEST_PARAM := p\<rparr>)"
  have args: "reload_args P par t1 = reload_args P par t"
    by (simp add: t1_def reload_args_def split: option.splits)
  have a: "a = loadData_args P (reload_args P par t) t1"
    using assms(1) by (simp add: reload_calls t1_def)
  have "reload P par t = requestLoadData P (reload_args P par t) t1"
    by (simp add: reload_def t1_def args [unfolded t1_def] Let_def)
  moreover have "state (requestLoadData P (reload_args P par t) t1) =
      (state t1)\<lparr>dataSource := fst r, total := snd r, loading := False\<rparr>"
    using assms(2) unfolding a by (rule requestLoadData_state)
  ultimately show ?thesis by simp
qed

text \<open>
  C6. With a save hook that resolves anything but \<^verbatim>\<open>false\<close>, a click on a row's delete
  icon is the call \<^verbatim>\<open>onSave(record, 'DELETE')\<close> followed by \<^verbatim>\<open>reload()\<close>: the hook and then
  the loader are called, and nothing else. When the loader resolves, the data set and
  the total are those of its response, whatever the grid held; as long as it has not,
  they are what they were, the deleted row included.
\<close>

theorem delete_reloads:
  assumes "onSave P = Some hook" and "hook record DELETE = Resolves respState"
    and "respState \<noteq> Some False"
  shows "delete_onClick P record t =
           reload P None (t\<lparr>calls := calls t @ [OnSave record DELETE]\<rparr>) \<and>
         calls (delete_onClick P record t) = calls t @
           [OnSave record DELETE,
            LoadData \<lparr>load_args.page = State.page (state t),
              load_args.pageSize =
                (if State.pageSize (state t) \<noteq> 0 then State.pageSize (state t)
                 else defaultPageSize P),
              load_args.param = spread (spread [] (defaultParam P)) (REQUEST_PARAM t),
              load_args.sorter = State.sorter (state t)\<rparr>] \<and>
         (\<forall>a rows n.
            calls (delete_onClick P record t) = calls t @ [OnSave record DELETE, LoadData a] \<and>
            loadData P a = Resolves (rows, n) \<longrightarrow>
            dataSource (state (delete_onClick P record t)) = rows \<and>
            total (state (delete_onClick P record t)) = n) \<and>
         (\<forall>a.
            calls (delete_onClick P record t) = calls t @ [OnSave record DELETE, LoadData a] \<and>
            loadData P a = Unsettled \<longrightarrow>
            dataSource (state (delete_onClick P record t)) = dataSource (state t) \<and>
            total (state (delete_onClick P record t)) = total (state t))"
proof -
  let ?t1 = "t\<lparr>calls := calls t @ [OnSave record DELETE]\<rparr>"
  have eq: "delete_onClick P record t = reload P None ?t1"
    using assms by (rule delete_onClick_success)
  have sent: "calls (delete_onClick P record t) = calls t @
           [OnSave record DELETE,
            LoadData \<lparr>load_args.page = State.page (state t),
              load_args.pageSize =
                (if State.pageSize (state t) \<noteq> 0 then State.pageSize (state t)
                 else defaultPageSize P),
              load_args.param = spread (spread [] (defaultParam P)) (REQUEST_PARAM t),
              load_args.sorter = State.sorter (state t)\<rparr>]"
    by (simp add: eq reload_calls loadData_args_def reload_args_def merged_param_def
        spread_opt_def)
  have resolved: "dataSource (state (delete_onClick P record t)) = rows \<and>
      total (state (delete_onClick P record t)) = n"
    if "calls (delete_onClick P record t) = calls t @ [OnSave record DELETE, LoadData a]"
      and "loadData P a = Resolves (rows, n)" for a rows n
  proof -
    from that(1) have "calls (reload P None ?t1) = calls ?t1 @ [LoadData a]"
      by (simp add: eq)
    from reload_dataSource_resolved [OF this that(2)] show ?thesis
      by (simp add: eq)
  qed
  have pending: "dataSource (state (delete_onClick P record t)) = dataSource (state t) \<and>
      total (state (delete_onClick P record t)) = total (state t)"
    if "calls (delete_onClick P record t) = calls t @ [OnSave record DELETE, LoadData a]"
      and "loadData P a = Unsettled" for a
  proof -
    from that(1) have "calls (reload P None ?t1) = calls ?t1 @ [LoadData a]"
      by (simp add: eq)
    from reload_dataSource_unsettled [OF this that(2)] show ?thesis
      by (simp add: eq)
  qed
  from eq sent resolved pending show ?thesis by blast
qed

theorem delete_reloads_witness:
  "calls (delete_onClick saving_props row2 two_rows_table) =
     [OnSave row2 DELETE,
      LoadData \<lparr>load_args.page = 1, load_args.pageSize = 300,
        load_args.param = [(''a'', JNum 1), (''b'', JNum 2)], load_args.sorter = None\<rparr>] \<and>
   dataSource (state (delete_onClick saving_props row2 two_rows_table)) = [[(''id'', JNum 7)]] \<and>
   total (state (delete_onClick saving_props row2 two_rows_table)) = 41"
proof -
  have hook: "onSave saving_props = Some (\<lambda>record kind. Resolves None)"
    by (simp add: saving_props_def)
  have success: "(None :: bool option) \<noteq> Some False"
    by simp
  note fact = delete_reloads
    [of saving_props "\<lambda>record kind. Resolves None" row2 None two_rows_table,
     OF hook refl success]
  have vals:
    "State.page (state two_rows_table) = 1"
    "State.pageSize (state two_rows_table) = 0"
    "State.sorter (state two_rows_table) = None"
    "REQUEST_PARAM two_rows_table = []"
    "calls two_rows_table = []"
    "defaultPageSize saving_props = 300"
    "defaultParam saving_props = [(''a'', JNum 1), (''b'', JNum 2)]"
    by (simp_all add: saving_props_def one_row_props_def example_props_def
        two_rows_table_def initial_def setState_def)
  have answer: "loadData saving_props
      \<lparr>load_args.page = 1, load_args.pageSize = 300,
        load_args.param = [(''a'', JNum 1), (''b'', JNum 2)], load_args.sorter = None\<rparr> =
      Resolves ([[(''id'', JNum 7)]], 41)"
    by (simp add: saving_props_def one_row_props_def)
  from fact [THEN conjunct2] answer show ?thesis
    by (simp add: vals)
qed

section \<open>The result of the save hook\<close>

lemma loadData_args_onSave:
  "loadData_args (P\<lparr>onSave := h\<rparr>) a t = loadData_args P a t"
  by (simp add: loadData_args_def merged_param_def)

lemma requestLoadData_onSave:
  "requestLoadData (P\<lparr>onSave := h\<rparr>) a t = requestLoadData P a t"
  by (simp add: requestLoadData_def requestLoadData_issue_def loadData_args_onSave)

lemma reload_args_onSave:
  "reload_args (P\<lparr>onSave := h\<rparr>) par t = reload_args P par t"
  by (cases "State.pageSize (state t) = 0") (simp_all add: reload_args_def)

lemma reload_onSave_irrelevant:
  "reload (P\<lparr>onSave := h\<rparr>) par t = reload P par t"
  by (simp add: reload_def requestLoadData_onSave reload_args_onSave)

lemma cell_onSave_hook:
  assumes "onSave P = Some hook" and "hook values UPDATE = Resolves respState"
  shows "cell_onSave P ds values t =
     (t\<lparr>state := (state t)\<lparr>dataSource := replace_rows (rowKey P) values ds\<rparr>,
        dataSourceState := (dataSourceState t)
          \<lparr>update := stage_update (rowKey P) values (update (dataSourceState t))\<rparr>,
        calls := calls t @ [OnSave values UPDATE]\<rparr>,
      Resolves (respState \<noteq> Some False))"
  using assms
  by (cases respState) (simp_all add: cell_onSave_def setState_def Let_def)

lemma check_onClick_hook:
  assumes "onSave P = Some hook" and "form P = Some (Valid values)"
    and "hook (spread [] (assign_values (spread [] record) values)) UPDATE = Resolves respState"
  shows "check_onClick P record t =
     (if respState \<noteq> Some False
      then t\<lparr>state := (state t)\<lparr>editingKey := JUndefined\<rparr>,
             calls := calls t @
               [OnSave (spread [] (assign_values (spread [] record) values)) UPDATE]\<rparr>
      else t\<lparr>calls := calls t @
               [OnSave (spread [] (assign_values (spread [] record) values)) UPDATE]\<rparr>)"
  using assms
  by (simp add: check_onClick_def setState_def Let_def)

lemma check_onClick_no_call:
  assumes "form P = None \<or> form P = Some Invalid"
  shows "check_onClick P record t = t"
  using assms
  by (auto simp: check_onClick_def split: option.splits)

lemma check_onClick_failure:
  assumes "onSave P = Some hook" and "\<And>r k. hook r k = Resolves (Some False)"
  shows "state (check_onClick P record t) = state t \<and>
         dataSourceState (check_onClick P record t) = dataSourceState t"
  using assms
  by (simp add: check_onClick_def Let_def split: option.splits validation.splits)

lemma check_onClick_same:
  assumes "\<And>r k. hu r k = Resolves None" and "\<And>r k. ht r k = Resolves (Some True)"
  shows "check_onClick (P\<lparr>onSave := Some hu\<rparr>) record t =
         check_onClick (P\<lparr>onSave := Some ht\<rparr>) record t"
  using assms
  by (simp add: check_onClick_def Let_def split: option.splits validation.splits)

lemma delete_onClick_same:
  assumes "\<And>r k. hu r k = Resolves None" and "\<And>r k. ht r k = Resolves (Some True)"
  shows "delete_onClick (P\<lparr>onSave := Some hu\<rparr>) record t =
         delete_onClick (P\<lparr>onSave := Some ht\<rparr>) record t"
  using assms
  by (simp add: delete_onClick_def reload_onSave_irrelevant Let_def)

lemma cell_onSave_same:
  assumes "\<And>r k. hu r k = Resolves None" and "\<And>r k. ht r k = Resolves (Some True)"
  shows "cell_onSave (P\<lparr>onSave := Some hu\<rparr>) ds values t =
         cell_onSave (P\<lparr>onSave := Some ht\<rparr>) ds values t"
  using assms
  by (simp add: cell_onSave_def Let_def)

lemma cell_onSave_failure:
  assumes "\<And>r k. ht r k = Resolves (Some True)" and "\<And>r k. hf r k = Resolves (Some False)"
  shows "snd (cell_onSave (P\<lparr>onSave := Some hf\<rparr>) ds values t) = Resolves False \<and>
         snd (cell_onSave (P\<lparr>onSave := Some ht\<rparr>) ds values t) = Resolves True \<and>
         fst (cell_onSave (P\<lparr>onSave := Some hf\<rparr>) ds values t) =
         fst (cell_onSave (P\<lparr>onSave := Some ht\<rparr>) ds values t)"
  using assms
  by (simp add: cell_onSave_def Let_def)

text \<open>
  C3, as the spec states it, on the per-cell path: with a hook that resolves \<^verbatim>\<open>false\<close>
  the row of the data set has been replaced and the edit is staged in \<^verbatim>\<open>update\<close> all the
  same. Both are done before the hook is called, and nothing takes them back.
\<close>

theorem failed_cell_save_counterexample:
  "snd (cell_onSave failing_props [row1, row2] row1_edited two_rows_table) = Resolves False \<and>
   update (dataSourceState two_rows_table) = [] \<and>
   update (dataSourceState
     (fst (cell_onSave failing_props [row1, row2] row1_edited two_rows_table))) =
     [row1_edited] \<and>
   dataSource (state two_rows_table) = [row1, row2] \<and>
   dataSource (state
     (fst (cell_onSave failing_props [row1, row2] row1_edited two_rows_table))) =
     [row1_edited, row2]"
  by (simp add: cell_onSave_def failing_props_def example_props_def two_rows_table_def
      initial_def setState_def stage_update_def replace_rows_def row1_def row2_def
      row1_edited_def get_prop_def)

text \<open>
  C3, amended. On each of the three paths a hook that resolves \<^verbatim>\<open>undefined\<close> leaves the
  grid in the state, and the cell with the result, that a hook resolving \<^verbatim>\<open>true\<close> does.
  With a hook that resolves \<^verbatim>\<open>false\<close>, row confirm changes neither the state (the row
  stays in edit mode) nor the collections; delete does nothing beyond the call of the
  hook, so there is no reload; and the per-cell save hands \<^verbatim>\<open>false\<close> to the cell, while
  the grid, with the row replaced in the data set and the edit staged in \<^verbatim>\<open>update\<close>, is
  as it is after a successful save.
\<close>

theorem save_result_transitions:
  assumes "\<And>r k. hu r k = Resolves None"
    and "\<And>r k. ht r k = Resolves (Some True)"
    and "\<And>r k. hf r k = Resolves (Some False)"
  shows "cell_onSave (P\<lparr>onSave := Some hu\<rparr>) ds values t =
           cell_onSave (P\<lparr>onSave := Some ht\<rparr>) ds values t \<and>
         check_onClick (P\<lparr>onSave := Some hu\<rparr>) record t =
           check_onClick (P\<lparr>onSave := Some ht\<rparr>) record t \<and>
         delete_onClick (P\<lparr>onSave := Some hu\<rparr>) record t =
           delete_onClick (P\<lparr>onSave := Some ht\<rparr>) record t \<and>
         state (check_onClick (P\<lparr>onSave := Some hf\<rparr>) record t) = state t \<and>
         dataSourceState (check_onClick (P\<lparr>onSave := Some hf\<rparr>) record t) =
           dataSourceState t \<and>
         delete_onClick (P\<lparr>onSave := Some hf\<rparr>) record t =
           t\<lparr>calls := calls t @ [OnSave record DELETE]\<rparr> \<and>
         snd (cell_onSave (P\<lparr>onSave := Some hf\<rparr>) ds values t) = Resolves False \<and>
         snd (cell_onSave (P\<lparr>onSave := Some ht\<rparr>) ds values t) = Resolves True \<and>
         fst (cell_onSave (P\<lparr>onSave := Some hf\<rparr>) ds values t) =
           fst (cell_onSave (P\<lparr>onSave := Some ht\<rparr>) ds values t)"
proof -
  have hook: "onSave (P\<lparr>onSave := Some hf\<rparr>) = Some hf"
    by simp
  have del: "delete_onClick (P\<lparr>onSave := Some hf\<rparr>) record t =
      t\<lparr>calls := calls t @ [OnSave record DELETE]\<rparr>"
    using hook assms(3) by (rule delete_onClick_failure)
  from cell_onSave_same [of hu ht P ds "values" t, OF assms(1,2)]
    check_onClick_same [of hu ht P "record" t, OF assms(1,2)]
    delete_onClick_same [of hu ht P "record" t, OF assms(1,2)]
    check_onClick_failure [of "P\<lparr>onSave := Some hf\<rparr>" hf "record" t, OF hook assms(3)]
    del
    cell_onSave_failure [of ht hf P ds "values" t, OF assms(2,3)]
  show ?thesis by blast
qed

theorem save_result_transitions_witness:
  "check_onClick (form_props\<lparr>onSave := Some (\<lambda>r k. Resolves None)\<rparr>) row1 editing_table =
     check_onClick (form_props\<lparr>onSave := Some (\<lambda>r k. Resolves (Some True))\<rparr>) row1
       editing_table \<and>
   editingKey (state (check_onClick
     (form_props\<lparr>onSave := Some (\<lambda>r k. Resolves None)\<rparr>) row1 editing_table)) = JUndefined \<and>
   calls (check_onClick
     (form_props\<lparr>onSave := Some (\<lambda>r k. Resolves None)\<rparr>) row1 editing_table) =
     [OnSave row1_edited UPDATE] \<and>
   editingKey (state (check_onClick
     (form_props\<lparr>onSave := Some (\<lambda>r k. Resolves (Some False))\<rparr>) row1 editing_table)) =
     JNum 1 \<and>
   delete_onClick (form_props\<lparr>onSave := Some (\<lambda>r k. Resolves (Some False))\<rparr>) row1
     editing_table = editing_table\<lparr>calls := [OnSave row1 DELETE]\<rparr> \<and>
   snd (cell_onSave (form_props\<lparr>onSave := Some (\<lambda>r k. Resolves None)\<rparr>) [row1, row2]
     row1_edited editing_table) = Resolves True \<and>
   snd (cell_onSave (form_props\<lparr>onSave := Some (\<lambda>r k. Resolves (Some False))\<rparr>)
     [row1, row2] row1_edited editing_table) = Resolves False"
proof -
  have k: "editingKey (state editing_table) = JNum 1" and c: "calls editing_table = []"
    by (simp_all add: editing_table_def setState_def initial_def)
  have confirmed: "check_onClick (form_props\<lparr>onSave := Some (\<lambda>r k. Resolves (Some True))\<rparr>)
      row1 editing_table =
      editing_table\<lparr>state := (state editing_table)\<lparr>editingKey := JUndefined\<rparr>,
        calls := calls editing_table @ [OnSave row1_edited UPDATE]\<rparr>"
    by (simp add: check_onClick_def form_props_def example_props_def setState_def
        row1_def row1_edited_def)
  from save_result_transitions
    [of "\<lambda>r k. Resolves None" "\<lambda>r k. Resolves (Some True)" "\<lambda>r k. Resolves (Some False)"
        form_props "[row1, row2]" row1_edited editing_table row1]
  show ?thesis
    by (simp add: confirmed k c)
qed

section \<open>Staging an edited row\<close>

lemma set_prop_new: "k \<notin> keys ob \<Longrightarrow> set_prop k v ob = ob @ [(k, v)]"
  by (induction ob) (auto simp: keys_def)

lemma spread_append:
  "distinct (map fst (tgt @ src)) \<Longrightarrow> spread tgt src = tgt @ src"
proof (induction src arbitrary: tgt)
  case Nil
  show ?case by simp
next
  case (Cons p ps)
  obtain k v where p: "p = (k, v)" by (cases p)
  from Cons.prems have new: "k \<notin> keys tgt"
    by (auto simp: p keys_def)
  from Cons.prems have "distinct (map fst ((tgt @ [(k, v)]) @ ps))"
    by (auto simp: p)
  then have "spread (tgt @ [(k, v)]) ps = (tgt @ [(k, v)]) @ ps"
    by (rule Cons.IH)
  with new show ?case
    by (simp add: p set_prop_new)
qed

lemma spread_copy: "wf_obj ob \<Longrightarrow> spread [] ob = ob"
  using spread_append [of "[]" ob] by (simp add: wf_obj_def)

lemma replace_update_keys:
  assumes "wf_obj values"
  shows "map (\<lambda>d. get_prop d rk) (replace_update rk values upd) =
         map (\<lambda>d. get_prop d rk) upd"
  using assms by (induction upd) (simp_all add: spread_copy)

lemma replace_update_length: "length (replace_update rk values upd) = length upd"
  by (induction upd) simp_all

lemma filter_key_empty:
  "(filter (\<lambda>d. get_prop d rk = y) upd = []) = (y \<notin> (\<lambda>d. get_prop d rk) ` set upd)"
  by (auto simp: filter_empty_conv)

lemma stage_update_present:
  assumes "get_prop values rk \<in> (\<lambda>d. get_prop d rk) ` set upd"
  shows "stage_update rk values upd = replace_update rk values upd"
proof -
  from assms have "filter (\<lambda>d. get_prop d rk = get_prop values rk) upd \<noteq> []"
    by (simp add: filter_key_empty)
  then show ?thesis
    by (simp add: stage_update_def)
qed

lemma stage_update_absent:
  assumes "get_prop values rk \<notin> (\<lambda>d. get_prop d rk) ` set upd"
  shows "stage_update rk values upd = upd @ [values]"
proof -
  from assms have "filter (\<lambda>d. get_prop d rk = get_prop values rk) upd = []"
    by (simp add: filter_key_empty)
  then show ?thesis
    by (simp add: stage_update_def)
qed

lemma stage_update_distinct:
  assumes "distinct (map (\<lambda>d. get_prop d rk) upd)" and "wf_obj values"
  shows "distinct (map (\<lambda>d. get_prop d rk) (stage_update rk values upd))"
proof (cases "get_prop values rk \<in> (\<lambda>d. get_prop d rk) ` set upd")
  case True
  with assms show ?thesis
    by (simp add: stage_update_present replace_update_keys)
next
  case False
  with assms(1) show ?thesis
    by (simp add: stage_update_absent)
qed

lemma stage_update_has_key:
  assumes "wf_obj values"
  shows "get_prop values rk \<in> (\<lambda>d. get_prop d rk) ` set (stage_update rk values upd)"
proof (cases "get_prop values rk \<in> (\<lambda>d. get_prop d rk) ` set upd")
  case True
  then have "get_prop values rk \<in> set (map (\<lambda>d. get_prop d rk) upd)"
    by simp
  then have "get_prop values rk \<in> set (map (\<lambda>d. get_prop d rk) (replace_update rk values upd))"
    by (simp only: replace_update_keys [OF assms])
  with True show ?thesis
    by (simp add: stage_update_present)
next
  case False
  then show ?thesis
    by (simp add: stage_update_absent)
qed

lemma distinct_key_once:
  assumes "distinct (map f xs)" and "y \<in> f ` set xs"
  shows "length (filter (\<lambda>x. f x = y) xs) = 1"
  using assms
proof (induction xs)
  case Nil
  then show ?case by simp
next
  case (Cons x xs)
  show ?case
  proof (cases "f x = y")
    case True
    with Cons.prems have "y \<notin> f ` set xs" by auto
    then have "filter (\<lambda>x. f x = y) xs = []"
      by (auto simp: filter_empty_conv)
    with True show ?thesis by simp
  next
    case False
    with Cons show ?thesis by auto
  qed
qed

lemma key_absent:
  assumes "y \<notin> (\<lambda>d. get_prop d rk) ` set xs" and "e \<in> set xs"
  shows "get_prop e rk \<noteq> y"
  using assms by blast

lemma replace_update_serialised:
  assumes "distinct (map (\<lambda>d. get_prop d rk) upd)" and "wf_obj values"
    and "e \<in> set (replace_update rk values upd)" and "get_prop e rk = get_prop values rk"
  shows "JSON_stringify e = JSON_stringify values"
  using assms
proof (induction upd)
  case Nil
  then show ?case by simp
next
  case (Cons element rest)
  show ?case
  proof (cases "get_prop element rk = get_prop values rk")
    case True
    with Cons.prems(1) have none: "get_prop values rk \<notin> (\<lambda>d. get_prop d rk) ` set rest"
      by auto
    from Cons.prems(3) True
    have "e = spread [] values \<and> JSON_stringify element \<noteq> JSON_stringify values \<or>
          e = element \<and> JSON_stringify element = JSON_stringify values \<or> e \<in> set rest"
      by (auto split: if_splits)
    moreover have "e \<notin> set rest"
      using key_absent [OF none] Cons.prems(4) by blast
    ultimately show ?thesis
      using Cons.prems(2) by (auto simp: spread_copy)
  next
    case False
    with Cons.prems(3,4) have "e \<in> set (replace_update rk values rest)"
      by auto
    moreover from Cons.prems(1) have "distinct (map (\<lambda>d. get_prop d rk) rest)"
      by simp
    ultimately show ?thesis
      using Cons.IH Cons.prems(2,4) by blast
  qed
qed

lemma stage_update_serialised:
  assumes "distinct (map (\<lambda>d. get_prop d rk) upd)" and "wf_obj values"
    and "e \<in> set (stage_update rk values upd)" and "get_prop e rk = get_prop values rk"
  shows "JSON_stringify e = JSON_stringify values"
proof (cases "get_prop values rk \<in> (\<lambda>d. get_prop d rk) ` set upd")
  case True
  with assms show ?thesis
    by (simp add: stage_update_present replace_update_serialised)
next
  case False
  then have "e \<notin> set upd"
    using key_absent [OF False] assms(4) by blast
  with False assms(3) show ?thesis
    by (simp add: stage_update_absent)
qed

lemma replace_update_same:
  assumes "\<And>e. e \<in> set upd \<Longrightarrow> get_prop e rk = get_prop values rk \<Longrightarrow>
             JSON_stringify e = JSON_stringify values"
  shows "replace_update rk values upd = upd"
  using assms by (induction upd) simp_all

lemma cell_onSave_collections:
  "update (dataSourceState (fst (cell_onSave P ds values t))) =
     stage_update (rowKey P) values (update (dataSourceState t))"
  "delete (dataSourceState (fst (cell_onSave P ds values t))) = delete (dataSourceState t)"
  "create (dataSourceState (fst (cell_onSave P ds values t))) = create (dataSourceState t)"
  by (simp_all add: cell_onSave_def setState_def Let_def split: option.splits outcome.splits)

lemma editStash_update:
  "update (dataSourceState (editStash t)) = update (dataSourceState t) \<or>
   update (dataSourceState (editStash t)) = []"
  by (simp add: editStash_def)

lemma requestLoadData_update:
  "update (dataSourceState (requestLoadData P a t)) = update (dataSourceState t) \<or>
   update (dataSourceState (requestLoadData P a t)) = []"
  by (simp add: requestLoadData_def requestLoadData_issue_def requestLoadData_then_def
      editStash_def setState_def Let_def split: outcome.splits)

lemma reload_update:
  "update (dataSourceState (reload P par t)) = update (dataSourceState t) \<or>
   update (dataSourceState (reload P par t)) = []"
  using requestLoadData_update
    [of P "reload_args P par (case par of None \<Rightarrow> t | Some p \<Rightarrow> t\<lparr>REQUEST_PARAM := p\<rparr>)"
        "case par of None \<Rightarrow> t | Some p \<Rightarrow> t\<lparr>REQUEST_PARAM := p\<rparr>"]
  by (simp add: reload_def Let_def split: option.splits)

lemma delete_onClick_update:
  "update (dataSourceState (delete_onClick P record t)) = update (dataSourceState t) \<or>
   update (dataSourceState (delete_onClick P record t)) = []"
  using reload_update [of P None "t\<lparr>calls := calls t @ [OnSave record DELETE]\<rparr>"]
  by (simp add: delete_onClick_def Let_def split: option.splits outcome.splits)

lemma check_onClick_update:
  "update (dataSourceState (check_onClick P record t)) = update (dataSourceState t)"
  by (simp add: check_onClick_def setState_def Let_def
      split: option.splits outcome.splits validation.splits)

lemma fire_update:
  assumes "fire P e t = Some t'"
  shows "update (dataSourceState t') = update (dataSourceState t) \<or>
         update (dataSourceState t') = [] \<or>
         (\<exists>ds v. e = CellSave ds v \<and>
            update (dataSourceState t') = stage_update (rowKey P) v (update (dataSourceState t)))"
proof (cases e)
  case (Click dataIndex row c)
  with assms have t': "t' = (case c of
                   EditIcon \<Rightarrow> edit_onClick P row t
                 | DeleteIcon \<Rightarrow> delete_onClick P row t
                 | CheckIcon \<Rightarrow> check_onClick P row t
                 | UndoIcon \<Rightarrow> undo_onClick t)"
    by (auto split: if_splits)
  show ?thesis
  proof (cases c)
    case EditIcon
    with t' show ?thesis by (simp add: edit_onClick_def setState_def)
  next
    case DeleteIcon
    with t' delete_onClick_update [of P row t] show ?thesis by auto
  next
    case CheckIcon
    with t' show ?thesis by (simp add: check_onClick_update)
  next
    case UndoIcon
    with t' show ?thesis by (simp add: undo_onClick_def setState_def)
  qed
next
  case (CellSave ds vals)
  with assms show ?thesis by (auto simp: cell_onSave_collections)
next
  case (Reload par)
  with assms reload_update [of P par t] show ?thesis by auto
next
  case (Change current psize srt)
  with assms requestLoadData_update show ?thesis by (auto simp: onChange_def)
next
  case EditStash
  with assms editStash_update [of t] show ?thesis by auto
qed

lemma fire_distinct:
  assumes "distinct (map (\<lambda>d. get_prop d (rowKey P)) (update (dataSourceState t)))"
    and "saves_object e" and "fire P e t = Some t'"
  shows "distinct (map (\<lambda>d. get_prop d (rowKey P)) (update (dataSourceState t')))"
proof -
  from fire_update [OF assms(3)]
  consider "update (dataSourceState t') = update (dataSourceState t)"
    | "update (dataSourceState t') = []"
    | ds v where "e = CellSave ds v"
        "update (dataSourceState t') = stage_update (rowKey P) v (update (dataSourceState t))"
    by blast
  then show ?thesis
  proof cases
    case 1
    with assms(1) show ?thesis by simp
  next
    case 2
    then show ?thesis by simp
  next
    case 3
    with assms(2) have "wf_obj v" by simp
    with assms(1) 3(2) show ?thesis
      by (simp add: stage_update_distinct)
  qed
qed

lemma run_distinct:
  assumes "distinct (map (\<lambda>d. get_prop d (rowKey P)) (update (dataSourceState t)))"
    and "list_all saves_object es" and "run P es t = Some t'"
  shows "distinct (map (\<lambda>d. get_prop d (rowKey P)) (update (dataSourceState t')))"
  using assms
proof (induction es arbitrary: t)
  case Nil
  then show ?case by simp
next
  case (Cons e es)
  from Cons.prems(3) obtain t1 where f: "fire P e t = Some t1" and r: "run P es t1 = Some t'"
    by (auto split: option.splits)
  from Cons.prems(2) have e: "saves_object e" and es: "list_all saves_object es"
    by simp_all
  from fire_distinct [OF Cons.prems(1) e f] es r show ?case
    by (rule Cons.IH)
qed

text \<open>
  C2. Start from a grid in which no key has two entries in \<^verbatim>\<open>update\<close> (the grid as
  mounted, or after a load, has none at all) and let any sequence of events run, per-cell
  saves among them. Then still no key has two entries. A further save of \<open>v1\<close> leaves
  exactly one entry with the key of \<open>v1\<close>: appended when the key was not there, otherwise
  with the entries and their keys in the places they had; and that entry serialises as
  \<open>v1\<close> does. A save of \<open>v2\<close> after it, with the same key and the same \<^verbatim>\<open>JSON.stringify\<close>
  as \<open>v1\<close>, changes none of the three collections. The values saved are objects.
\<close>

theorem cell_save_dedup:
  assumes "distinct (map (\<lambda>d. get_prop d (rowKey P)) (update (dataSourceState t0)))"
    and "list_all saves_object es"
    and "run P es t0 = Some t"
    and "wf_obj v1"
    and "get_prop v2 (rowKey P) = get_prop v1 (rowKey P)"
    and "JSON_stringify v2 = JSON_stringify v1"
    and "t1 = fst (cell_onSave P ds1 v1 t)"
    and "t2 = fst (cell_onSave P ds2 v2 t1)"
  shows "distinct (map (\<lambda>d. get_prop d (rowKey P)) (update (dataSourceState t))) \<and>
         distinct (map (\<lambda>d. get_prop d (rowKey P)) (update (dataSourceState t1))) \<and>
         length (filter (\<lambda>d. get_prop d (rowKey P) = get_prop v1 (rowKey P))
           (update (dataSourceState t1))) = 1 \<and>
         (get_prop v1 (rowKey P) \<notin> (\<lambda>d. get_prop d (rowKey P)) ` set (update (dataSourceState t))
            \<longrightarrow> update (dataSourceState t1) = update (dataSourceState t) @ [v1]) \<and>
         (get_prop v1 (rowKey P) \<in> (\<lambda>d. get_prop d (rowKey P)) ` set (update (dataSourceState t))
            \<longrightarrow> length (update (dataSourceState t1)) = length (update (dataSourceState t)) \<and>
                map (\<lambda>d. get_prop d (rowKey P)) (update (dataSourceState t1)) =
                map (\<lambda>d. get_prop d (rowKey P)) (update (dataSourceState t))) \<and>
         (\<forall>e \<in> set (update (dataSourceState t1)).
            get_prop e (rowKey P) = get_prop v1 (rowKey P) \<longrightarrow>
            JSON_stringify e = JSON_stringify v1) \<and>
         dataSourceState t2 = dataSourceState t1 \<and>
         length (filter (\<lambda>d. get_prop d (rowKey P) = get_prop v1 (rowKey P))
           (update (dataSourceState t2))) = 1"
proof -
  let ?rk = "rowKey P"
  let ?key = "\<lambda>d. get_prop d ?rk"
  let ?U = "update (dataSourceState t)"
  let ?U1 = "update (dataSourceState t1)"
  have inv: "distinct (map ?key ?U)"
    using assms(1,2,3) by (rule run_distinct)
  have U1: "?U1 = stage_update ?rk v1 ?U"
    by (simp add: assms(7) cell_onSave_collections)
  have inv1: "distinct (map ?key ?U1)"
    unfolding U1 using inv assms(4) by (rule stage_update_distinct)
  have has: "get_prop v1 ?rk \<in> ?key ` set ?U1"
    unfolding U1 using assms(4) by (rule stage_update_has_key)
  have once: "length (filter (\<lambda>d. ?key d = get_prop v1 ?rk) ?U1) = 1"
    using inv1 has by (rule distinct_key_once)
  have absent: "get_prop v1 ?rk \<notin> ?key ` set ?U \<longrightarrow> ?U1 = ?U @ [v1]"
    by (simp add: U1 stage_update_absent)
  have present: "get_prop v1 ?rk \<in> ?key ` set ?U \<longrightarrow>
      length ?U1 = length ?U \<and> map ?key ?U1 = map ?key ?U"
    using assms(4)
    by (simp add: U1 stage_update_present replace_update_length replace_update_keys)
  have ser: "JSON_stringify e = JSON_stringify v1"
    if "e \<in> set ?U1" and "?key e = get_prop v1 ?rk" for e
    using inv assms(4) that unfolding U1 by (rule stage_update_serialised)
  have "stage_update ?rk v2 ?U1 = replace_update ?rk v2 ?U1"
    using has by (simp add: stage_update_present assms(5))
  also have "\<dots> = ?U1"
  proof (rule replace_update_same)
    fix e
    assume "e \<in> set ?U1" and "get_prop e ?rk = get_prop v2 ?rk"
    then show "JSON_stringify e = JSON_stringify v2"
      using ser [of e] by (simp add: assms(5,6))
  qed
  finally have same: "update (dataSourceState t2) = ?U1"
    by (simp add: assms(8) cell_onSave_collections)
  have "dataSourceState t2 = dataSourceState t1"
    using same cell_onSave_collections(2,3) [of P ds2 v2 t1]
    by (simp add: assms(8))
  with inv inv1 once absent present ser show ?thesis
    by simp
qed

theorem cell_save_dedup_witness:
  "map_option (\<lambda>t. update (dataSourceState t))
     (run example_props
        [CellSave [row1, row2] row1_edited, Reload None,
         CellSave [row1, row2] row1_edited, CellSave [row1_edited, row2] row2_edited]
        initial) = Some [row1_edited, row2_edited] \<and>
   update (dataSourceState (fst (cell_onSave example_props [row1_edited, row2_edited] row1_saved
      (the (run example_props
        [CellSave [row1, row2] row1_edited, Reload None,
         CellSave [row1, row2] row1_edited, CellSave [row1_edited, row2] row2_edited]
        initial))))) = [row1_saved, row2_edited] \<and>
   update (dataSourceState (fst (cell_onSave example_props [row1_saved, row2_edited] row1_saved
      (fst (cell_onSave example_props [row1_edited, row2_edited] row1_saved
        (the (run example_props
          [CellSave [row1, row2] row1_edited, Reload None,
           CellSave [row1, row2] row1_edited, CellSave [row1_edited, row2] row2_edited]
          initial))))))) = [row1_saved, row2_edited] \<and>
   length (filter (\<lambda>d. get_prop d ''id'' = JNum 1)
     (update (dataSourceState (fst (cell_onSave example_props [row1_saved, row2_edited] row1_saved
      (fst (cell_onSave example_props [row1_edited, row2_edited] row1_saved
        (the (run example_props
          [CellSave [row1, row2] row1_edited, Reload None,
           CellSave [row1, row2] row1_edited, CellSave [row1_edited, row2] row2_edited]
          initial))))))))) = 1"
proof -
  let ?es = "[CellSave [row1, row2] row1_edited, Reload None,
         CellSave [row1, row2] row1_edited, CellSave [row1_edited, row2] row2_edited]"
  define t where "t = the (run example_props ?es initial)"
  let ?t1 = "fst (cell_onSave example_props [row1_edited, row2_edited] row1_saved t)"
  let ?t2 = "fst (cell_onSave example_props [row1_saved, row2_edited] row1_saved ?t1)"
  have rk: "rowKey example_props = ''id''"
    by (simp add: example_props_def)
  have ids: "get_prop row1_edited ''id'' = JNum 1" "get_prop row2_edited ''id'' = JNum 2"
    "get_prop row1_saved ''id'' = JNum 1"
    by (simp_all add: row1_edited_def row2_edited_def row1_saved_def get_prop_def)
  have differ: "JSON_stringify row1_edited \<noteq> JSON_stringify row1_saved"
    by (simp add: row1_edited_def row1_saved_def JSON_stringify_def quote_def
        escape_char_def show_int_def hex_digit_def)
  have copy: "spread [] row1_saved = row1_saved"
    by (simp add: row1_saved_def)
  have ran: "run example_props ?es initial = Some t"
    by (simp add: t_def)
  have cleared: "update (dataSourceState (reload example_props None
      (fst (cell_onSave example_props [row1, row2] row1_edited initial)))) = []"
    by (simp add: reload_def requestLoadData_def requestLoadData_issue_def
        requestLoadData_then_def editStash_def setState_def cell_onSave_def
        example_props_def initial_def Let_def)
  have U: "update (dataSourceState t) = [row1_edited, row2_edited]"
    by (simp add: t_def cell_onSave_collections cleared stage_update_def rk ids)
  have U1: "update (dataSourceState ?t1) = [row1_saved, row2_edited]"
    by (simp add: cell_onSave_collections U stage_update_def rk ids differ copy)
  have start: "distinct (map (\<lambda>d. get_prop d (rowKey example_props))
      (update (dataSourceState initial)))"
    by (simp add: initial_def)
  have objects: "list_all saves_object ?es"
    by (simp add: wf_obj_def row1_edited_def row2_edited_def)
  have object: "wf_obj row1_saved"
    by (simp add: wf_obj_def row1_saved_def)
  from cell_save_dedup [OF start objects ran object refl refl refl refl,
      of "[row1_edited, row2_edited]" "[row1_saved, row2_edited]"]
  have "dataSourceState ?t2 = dataSourceState ?t1 \<and>
      length (filter (\<lambda>d. get_prop d (rowKey example_props) =
          get_prop row1_saved (rowKey example_props))
        (update (dataSourceState ?t2))) = 1"
    by blast
  with U U1 ran show ?thesis
    by (simp add: rk ids t_def [symmetric])
qed

section \<open>The index column is local to the page\<close>

lemma render_index_upto:
  "map (\<lambda>(i, record). getColumnIndex (get_prop record dataIndex) record (int i))
     (enumerate 0 rows) = [1..int (length rows)]"
proof (induction rows rule: rev_induct)
  case Nil
  show ?case by simp
next
  case (snoc row rows)
  have "[1..int (length (rows @ [row]))] = [1..int (length rows)] @ [int (length rows) + 1]"
    using upto_rec2 [of 1 "int (length rows) + 1"] by (simp add: add.commute)
  with snoc show ?case
    by (simp add: enumerate_append_eq getColumnIndex_def)
qed

lemma index_column_upto: "index_column t = [1..int (length (dataSource (state t)))]"
  by (simp add: index_column_def render_column_def render_index_upto)

text \<open>
  C8. The index column shows \<open>1, \<dots>, n\<close> for the \<open>n\<close> rows the grid holds, whatever its
  page and page size; and after the change to page \<open>current\<close> with page size \<open>psize\<close>
  has been answered by the loader, it shows \<open>1, \<dots>, n\<close> for the \<open>n\<close> rows of the answer.
\<close>

theorem index_column_page_local:
  "index_column (setState (\<lambda>s. s\<lparr>page := current, pageSize := psize\<rparr>) t) =
     [1..int (length (dataSource (state t)))] \<and>
   (loadData P (loadData_args P
        \<lparr>request_args.page = current, request_args.pageSize = psize,
         request_args.param = None, request_args.sorter = Some srt\<rparr> t) = Resolves (rows, n)
      \<longrightarrow> index_column (onChange P current psize srt t) = [1..int (length rows)])"
proof -
  have "index_column (onChange P current psize srt t) = [1..int (length rows)]"
    if "loadData P (loadData_args P
        \<lparr>request_args.page = current, request_args.pageSize = psize,
         request_args.param = None, request_args.sorter = Some srt\<rparr> t) = Resolves (rows, n)"
    using requestLoadData_state [OF that]
    by (simp add: index_column_upto onChange_def)
  then show ?thesis
    by (simp add: index_column_upto setState_def)
qed

theorem index_column_page_local_witness:
  "map (\<lambda>record. get_prop record ''id'')
     (dataSource (state (onChange paged_props 3 10 \<lparr>name = ''id'', order = ''ascend''\<rparr> initial))) =
     map JNum [21, 22, 23, 24, 25, 26, 27, 28, 29, 30] \<and>
   index_column (onChange paged_props 3 10 \<lparr>name = ''id'', order = ''ascend''\<rparr> initial) =
     [1, 2, 3, 4, 5, 6, 7, 8, 9, 10]"
proof -
  have answer: "loadData paged_props (loadData_args paged_props
        \<lparr>request_args.page = 3, request_args.pageSize = 10,
         request_args.param = None, request_args.sorter = Some \<lparr>name = ''id'', order = ''ascend''\<rparr>\<rparr>
        initial) = Resolves (page_rows 20, 95)"
    by (simp add: paged_props_def loadData_args_def)
  have ten: "[1..int (length (page_rows 20))] = [1, 2, 3, 4, 5, 6, 7, 8, 9, 10]"
    by (simp add: page_rows_def upto.simps)
  have rows: "dataSource (state (onChange paged_props 3 10 \<lparr>name = ''id'', order = ''ascend''\<rparr>
      initial)) = page_rows 20"
    using requestLoadData_state [OF answer] by (simp add: onChange_def)
  have ids: "map (\<lambda>record. get_prop record ''id'') (page_rows 20) =
      map JNum [21, 22, 23, 24, 25, 26, 27, 28, 29, 30]"
    by (simp add: page_rows_def get_prop_def)
  from index_column_page_local
    [where current = 3 and psize = 10 and t = initial and P = paged_props
       and srt = "\<lparr>name = ''id'', order = ''ascend''\<rparr>" and rows = "page_rows 20" and n = 95]
    answer ten rows ids
  show ?thesis by simp
qed

section \<open>Loading the children of a tree node\<close>

lemma onLoadData_loaded:
  assumes "arrays tr loaded \<noteq> []"
  shows "onLoadData node (Resolves (Some loaded)) tr =
     tr\<lparr>nodes := (nodes tr)(node := (nodes tr node)\<lparr>children := Some loaded\<rparr>),
        arrays := (arrays tr)(fresh tr := arrays tr (treeData tr)),
        fresh := Suc (fresh tr),
        treeData := fresh tr\<rparr>"
  using assms by (simp add: onLoadData_def clone_array_def)

lemma onLoadData_nothing:
  "onLoadData node (Resolves None) tr = tr"
  "arrays tr loaded = [] \<Longrightarrow> onLoadData node (Resolves (Some loaded)) tr = tr"
  "onLoadData node Unsettled tr = tr"
  by (simp_all add: onLoadData_def)

text \<open>
  C9. When the promise resolves with a non-empty array, the node's \<open>children\<close> is that
  very array, the node's other fields and all other nodes are as before, and the state
  holds a new array with the elements of the old root array, no array in use having
  changed. When it resolves with an empty array or with none, nothing changes at all.
  The root array is one of the references in use.
\<close>

theorem onLoadData_effect:
  assumes "treeData tr < fresh tr"
  shows "(arrays tr loaded \<noteq> [] \<longrightarrow>
            nodes (onLoadData node (Resolves (Some loaded)) tr) node =
              (nodes tr node)\<lparr>children := Some loaded\<rparr> \<and>
            (\<forall>m. m \<noteq> node \<longrightarrow>
               nodes (onLoadData node (Resolves (Some loaded)) tr) m = nodes tr m) \<and>
            treeData (onLoadData node (Resolves (Some loaded)) tr) \<noteq> treeData tr \<and>
            arrays (onLoadData node (Resolves (Some loaded)) tr)
              (treeData (onLoadData node (Resolves (Some loaded)) tr)) =
              arrays tr (treeData tr) \<and>
            (\<forall>a. a < fresh tr \<longrightarrow>
               arrays (onLoadData node (Resolves (Some loaded)) tr) a = arrays tr a)) \<and>
         (arrays tr loaded = [] \<longrightarrow> onLoadData node (Resolves (Some loaded)) tr = tr) \<and>
         onLoadData node (Resolves None) tr = tr"
proof -
  have changed: "nodes (onLoadData node (Resolves (Some loaded)) tr) node =
              (nodes tr node)\<lparr>children := Some loaded\<rparr> \<and>
            (\<forall>m. m \<noteq> node \<longrightarrow>
               nodes (onLoadData node (Resolves (Some loaded)) tr) m = nodes tr m) \<and>
            treeData (onLoadData node (Resolves (Some loaded)) tr) \<noteq> treeData tr \<and>
            arrays (onLoadData node (Resolves (Some loaded)) tr)
              (treeData (onLoadData node (Resolves (Some loaded)) tr)) =
              arrays tr (treeData tr) \<and>
            (\<forall>a. a < fresh tr \<longrightarrow>
               arrays (onLoadData node (Resolves (Some loaded)) tr) a = arrays tr a)"
    if "arrays tr loaded \<noteq> []"
    using assms by (simp add: onLoadData_loaded [OF that])
  then show ?thesis
    by (simp add: onLoadData_nothing)
qed

theorem onLoadData_effect_witness:
  "children (nodes (onLoadData 1 (Resolves (Some 1)) example_tree) 1) = Some 1 \<and>
   key (nodes (onLoadData 1 (Resolves (Some 1)) example_tree) 1) = ''b'' \<and>
   nodes (onLoadData 1 (Resolves (Some 1)) example_tree) 0 = leaf ''a'' \<and>
   treeData (onLoadData 1 (Resolves (Some 1)) example_tree) = 3 \<and>
   arrays (onLoadData 1 (Resolves (Some 1)) example_tree) 3 = [0, 1] \<and>
   arrays (onLoadData 1 (Resolves (Some 1)) example_tree) 0 = [0, 1] \<and>
   onLoadData 0 (Resolves (Some 2)) example_tree = example_tree \<and>
   onLoadData 0 (Resolves None) example_tree = example_tree"
proof -
  have root: "treeData example_tree < fresh example_tree"
    by (simp add: example_tree_def)
  have new: "treeData (onLoadData 1 (Resolves (Some 1)) example_tree) = 3"
    by (simp add: onLoadData_def clone_array_def example_tree_def)
  from onLoadData_effect [OF root, of 1 1] onLoadData_effect [OF root, of 2 0] new
  show ?thesis
    by (simp add: example_tree_def leaf_def)
qed

end
